theory Spec2Isabelle
  imports Main "HOL-Library.Sublist"
begin

section \<open>Data model of \<open>src/backend/build.go\<close>\<close>

text \<open>
  \<open>ItemStatus\<close> is a Go string type with five named constants; a task or a build that was
  never given a status carries the empty string. Times and durations are counts of
  nanoseconds. Errors of the library calls are opaque values.
\<close>

type_synonym ItemStatus = string
type_synonym Time = int
type_synonym Duration = int

datatype error = Error string

definition StatusRunning :: ItemStatus where "StatusRunning = ''running''"
definition StatusFailed :: ItemStatus where "StatusFailed = ''failed''"
definition StatusFinished :: ItemStatus where "StatusFinished = ''finished''"
definition StatusPending :: ItemStatus where "StatusPending = ''pending''"
definition StatusAborted :: ItemStatus where "StatusAborted = ''aborted''"

text \<open>Modelled from the spec: the constant \<open>KindMain\<close> is declared outside the files at hand;
  the spec lists the task kinds as main, pending, running, finished, failed, aborted.\<close>

definition KindMain :: string where "KindMain = ''main''"

definition Millisecond :: Duration where "Millisecond = 1000000"

record Task =
  task_ID :: int
  task_Kind :: string
  task_Command :: string
  task_Status :: ItemStatus
  task_startedAt :: Time
  task_duration :: Duration

record Job =
  job_Name :: string
  job_Tasks :: "Task list"
  job_Timeout :: string
  job_Artifacts :: "string list"
  job_DefaultParams :: "(string \<times> string) list list"

text \<open>
  The build. \<open>pendingTasksWG\<close> is the counter of the wait-group, \<open>timer\<close> the armed
  timeout timer if there is one. The abort channel is part of the environment: what
  arrives on it is decided by the senders.
\<close>

record Build =
  ID :: int
  Job :: Job
  Status :: ItemStatus
  pendingTasksWG :: nat
  aborted :: bool
  Params :: "(string \<times> string) list list"
  Artifacts :: "string list"
  StartedAt :: Time
  Duration :: Duration
  timer :: "Duration option"

record TaskStatus =
  ts_ID :: int
  ts_Status :: ItemStatus
  ts_StartedAt :: Time
  ts_Duration :: Duration
  ts_Kind :: string

record BuildUpdateData =
  bud_ID :: int
  bud_Name :: string
  bud_Status :: ItemStatus
  bud_Tasks :: "TaskStatus list"
  bud_Params :: "(string \<times> string) list list"
  bud_Artifacts :: "string list"
  bud_StartedAt :: Time
  bud_Duration :: Duration

record CommandLogData =
  cld_TaskID :: int
  cld_Data :: string

datatype payload = UpdateData BuildUpdateData | LogData CommandLogData

record MsgBroadcast =
  msg_Type :: string
  msg_Data :: payload

record Config =
  WorkDir :: string
  JobDir :: string
  Port :: string
  Hostname :: string
  jobsExt :: string

subsection \<open>Effects\<close>

text \<open>
  Every effect of the code on the outside is an event of a chronological trace: the
  lines of the build logger, the sends on \<open>BroadcastChannel\<close>, the committed writes to the
  history bucket, the file operations, the processes started and stopped, the values
  received from the abort channel and the goroutines spawned. \<open>EvNewCmd\<close> is the call of
  \<open>cmd.NewCmdOptions\<close>, with the name and arguments of the command and the value that
  \<open>cmd.DEFAULT_LINE_BUFFER_SIZE\<close> has at the call: the size of the line buffers of the streams
  that the call creates.
\<close>

datatype logline =
    LogStatus ItemStatus
  | LogTaskStarted int
  | LogTaskCompleted int
  | LogTaskResult int bool int "error option"
  | LogAborting
  | LogErr error
  | LogCopying string
  | LogUnableToCopy string int
  | LogCreated string

datatype goroutine = GoPendingTasks | GoTimeout Duration

datatype event =
    EvLogger logline
  | EvBroadcast MsgBroadcast
  | EvStorePut string string
  | EvCreate string
  | EvWriteString string string
  | EvFlush string
  | EvClose string
  | EvNewCmd "string list" nat
  | EvCmdStart string string "string list"
  | EvRecvAbort bool
  | EvCmdStop
  | EvMkdirAll string
  | EvWriteFile string string
  | EvCp string string
  | EvGo goroutine
  | EvTimerStop
  | EvQRemove int
  | EvQTake

text \<open>
  The state outside a build: the trace, the two buckets of the key-value store (the
  history bucket and the \<open>count\<close> key of the global bucket) and the package variable
  \<open>cmd.DEFAULT_LINE_BUFFER_SIZE\<close>.
\<close>

record world =
  trace :: "event list"
  history :: "string \<rightharpoonup> string"
  gcount :: "string option"
  DEFAULT_LINE_BUFFER_SIZE :: nat

definition emit :: "event \<Rightarrow> world \<Rightarrow> world" where
  "emit e w = w\<lparr>trace := trace w @ [e]\<rparr>"

definition Logger :: "logline \<Rightarrow> world \<Rightarrow> world" where
  "Logger l w = emit (EvLogger l) w"

subsection \<open>The environment\<close>

text \<open>
  What the operating system, the libraries and the helpers declared in other files
  answer. Each answer may depend on everything that happened so far, so the oracles that
  touch the outside take the world. \<open>cmd_run\<close> gives the final status of the process of a task
  and, in the order in which they happen, the lines that the process prints on stdout and
  stderr, the closing of the two streams and the values that arrive on the abort channel of
  the build. \<open>OutputStream n line\<close> is what the command library, with a line buffer of \<open>n\<close>
  bytes, sends on the channel of a stream for one printed line.
\<close>

datatype select_event =
    SelStdout string
  | SelStdoutClosed
  | SelStderr string
  | SelStderrClosed
  | SelAbort bool

record cmd_Status =
  Complete :: bool
  Exit :: int
  cmd_Error :: "error option"

datatype stat_result = StatOK bool | StatNotExist error | StatErr error

record env =
  Config :: Config
  StripColor :: "string \<Rightarrow> string"
  ByteToInt :: "string \<Rightarrow> error + int"
  Duration_String :: "Duration \<Rightarrow> string"
  json_Marshal :: "BuildUpdateData \<Rightarrow> error + string"
  json_Unmarshal :: "string \<Rightarrow> error + BuildUpdateData"
  yaml_Unmarshal :: "string \<Rightarrow> error + Job"
  CreateJobFromFile :: "string \<Rightarrow> world \<Rightarrow> error + Job"
  time_Now :: "world \<Rightarrow> Time"
  time_ParseDuration :: "string \<Rightarrow> error + Duration"
  DB_commit :: "world \<Rightarrow> error option"
  os_Environ :: "string list"
  os_Create :: "string \<Rightarrow> world \<Rightarrow> error option"
  os_MkdirAll :: "string \<Rightarrow> world \<Rightarrow> error option"
  os_Stat :: "string \<Rightarrow> world \<Rightarrow> stat_result"
  os_ReadFile :: "string \<Rightarrow> world \<Rightarrow> error + string"
  os_WriteFile :: "string \<Rightarrow> string \<Rightarrow> world \<Rightarrow> error option"
  bufio_failure :: "string \<Rightarrow> world \<Rightarrow> error option"
  file_Close :: "string \<Rightarrow> world \<Rightarrow> error option"
  doublestar_Glob :: "string \<Rightarrow> world \<Rightarrow> error + string list"
  cmd_run :: "Build \<Rightarrow> Task \<Rightarrow> world \<Rightarrow> select_event list \<times> cmd_Status"
  OutputStream :: "nat \<Rightarrow> string \<Rightarrow> string list"
  cp_exit :: "string \<Rightarrow> string \<Rightarrow> world \<Rightarrow> int"

subsection \<open>Library functions used by the code\<close>

text \<open>\<open>strconv.Itoa\<close>: the decimal digits, with a minus sign for a negative number.\<close>

definition digit_char :: "nat \<Rightarrow> char" where
  "digit_char d = ''0123456789'' ! d"

function Itoa_nat :: "nat \<Rightarrow> string" where
  "Itoa_nat n = (if n < 10 then [digit_char n] else Itoa_nat (n div 10) @ [digit_char (n mod 10)])"
  by pat_completeness auto
termination
  by (relation "measure id") auto

declare Itoa_nat.simps [simp del]

definition Itoa :: "int \<Rightarrow> string" where
  "Itoa i = (if i < 0 then CHR ''-'' # Itoa_nat (nat (- i)) else Itoa_nat (nat i))"

text \<open>
  A \<open>Duration\<close> is an \<open>int64\<close> count of nanoseconds. \<open>Time.Sub\<close> returns the difference of two
  times as a \<open>Duration\<close>; a difference beyond the range of \<open>int64\<close> comes out as the largest or
  the smallest \<open>Duration\<close>. \<open>time.Since(t)\<close> is \<open>time.Now().Sub(t)\<close>.
\<close>

definition maxDuration :: Duration where "maxDuration = 9223372036854775807"

definition minDuration :: Duration where "minDuration = - 9223372036854775808"

definition time_Sub :: "Time \<Rightarrow> Time \<Rightarrow> Duration" where
  "time_Sub t u =
     (if t - u > maxDuration then maxDuration
      else if t - u < minDuration then minDuration
      else t - u)"

definition time_Since :: "env \<Rightarrow> Time \<Rightarrow> world \<Rightarrow> Duration" where
  "time_Since E t w = time_Sub (time_Now E w) t"

text \<open>\<open>Duration.Truncate\<close>: \<open>d - d % m\<close>, the remainder taking the sign of \<open>d\<close>; \<open>d\<close> itself when
  \<open>m\<close> is not positive.\<close>

definition Truncate :: "Duration \<Rightarrow> Duration \<Rightarrow> Duration" where
  "Truncate d m = (if m \<le> 0 then d else d - sgn d * (\<bar>d\<bar> mod m))"

text \<open>The verb \<open>%10s\<close> of \<open>fmt.Sprintf\<close>: spaces on the left up to a width of ten. The
  width counts characters; the duration strings padded here are ASCII.\<close>

definition pad10 :: "string \<Rightarrow> string" where
  "pad10 s = replicate (10 - length s) CHR '' '' @ s"

text \<open>\<open>strings.TrimPrefix\<close> and \<open>filepath.Split\<close> (the directory part ends with the last
  slash).\<close>

definition TrimPrefix :: "string \<Rightarrow> string \<Rightarrow> string" where
  "TrimPrefix s p = (if take (length p) s = p then drop (length p) s else s)"

fun split_dir :: "string \<Rightarrow> string" where
  "split_dir [] = []"
| "split_dir (c # cs) =
     (if CHR ''/'' \<in> set cs then c # split_dir cs
      else if c = CHR ''/'' then [c] else [])"

definition filepath_Split :: "string \<Rightarrow> string \<times> string" where
  "filepath_Split p = (split_dir p, drop (length (split_dir p)) p)"

text \<open>Modelled from the spec: \<open>Itob\<close> is declared outside the files at hand; the spec says
  the keys of the history bucket are big-endian 8-byte integers.\<close>

definition Itob :: "int \<Rightarrow> string" where
  "Itob v = map (\<lambda>k. char_of (v div 256 ^ k)) [7, 6, 5, 4, 3, 2, 1, 0]"

section \<open>The operations of a build\<close>

subsection \<open>Directories\<close>

definition GetWorkspaceDir :: "env \<Rightarrow> Build \<Rightarrow> string" where
  "GetWorkspaceDir E b = WorkDir (Config E) @ ''workspace/'' @ Itoa (ID b) @ ''/''"

definition GetWakespaceDir :: "env \<Rightarrow> Build \<Rightarrow> string" where
  "GetWakespaceDir E b = WorkDir (Config E) @ ''wakespace/'' @ Itoa (ID b) @ ''/''"

definition GetArtifactsDir :: "env \<Rightarrow> Build \<Rightarrow> string" where
  "GetArtifactsDir E b = GetWakespaceDir E b @ ''artifacts/''"

definition GetBuildConfigFilename :: "env \<Rightarrow> Build \<Rightarrow> string" where
  "GetBuildConfigFilename E b = GetWakespaceDir E b @ ''build'' @ jobsExt (Config E)"

definition task_log_file :: "env \<Rightarrow> Build \<Rightarrow> Task \<Rightarrow> string" where
  "task_log_file E b t = GetWakespaceDir E b @ ''task_'' @ Itoa (task_ID t) @ ''.log''"

subsection \<open>Status updates\<close>

definition GetTasksStatus :: "Build \<Rightarrow> TaskStatus list" where
  "GetTasksStatus b =
     map (\<lambda>t. \<lparr>ts_ID = task_ID t, ts_Status = task_Status t, ts_StartedAt = task_startedAt t,
               ts_Duration = task_duration t, ts_Kind = task_Kind t\<rparr>)
       (job_Tasks (Job b))"

definition GenerateBuildUpdateData :: "Build \<Rightarrow> BuildUpdateData" where
  "GenerateBuildUpdateData b =
     \<lparr>bud_ID = ID b, bud_Name = job_Name (Job b), bud_Status = Status b,
      bud_Tasks = GetTasksStatus b, bud_Params = Params b, bud_Artifacts = Artifacts b,
      bud_StartedAt = StartedAt b, bud_Duration = Duration b\<rparr>"

definition update_msg :: "Build \<Rightarrow> MsgBroadcast" where
  "update_msg b =
     \<lparr>msg_Type = ''build:update:'' @ Itoa (ID b), msg_Data = UpdateData (GenerateBuildUpdateData b)\<rparr>"

text \<open>
  The transaction of \<open>BroadcastUpdate\<close>: marshal the data and put it under the key of the
  build. An error of \<open>json.Marshal\<close> or of the commit leaves the bucket as it was and is
  returned.
\<close>

definition history_Put :: "env \<Rightarrow> BuildUpdateData \<Rightarrow> world \<Rightarrow> error + world" where
  "history_Put E d w =
     (case json_Marshal E d of
        Inl e \<Rightarrow> Inl e
      | Inr dataB \<Rightarrow>
          (case DB_commit E w of
             Some e \<Rightarrow> Inl e
           | None \<Rightarrow> Inr (emit (EvStorePut (Itob (bud_ID d)) dataB)
                          (w\<lparr>history := (history w)(Itob (bud_ID d) \<mapsto> dataB)\<rparr>))))"

text \<open>\<open>BroadcastUpdate\<close>: the message goes to the channel first, then the transaction runs;
  its error is logged.\<close>

definition BroadcastUpdate :: "env \<Rightarrow> Build \<Rightarrow> world \<Rightarrow> world" where
  "BroadcastUpdate E b w =
     (let w1 = emit (EvBroadcast (update_msg b)) w
      in case history_Put E (GenerateBuildUpdateData b) w1 of
           Inl e \<Rightarrow> Logger (LogErr e) w1
         | Inr w2 \<Rightarrow> w2)"


subsection \<open>Log lines\<close>

definition log_line :: "env \<Rightarrow> string \<Rightarrow> Time \<Rightarrow> world \<Rightarrow> string" where
  "log_line E line startedAt w =
     ''['' @ pad10 (Duration_String E (Truncate (time_Since E startedAt w) Millisecond)) @ ''] ''
       @ StripColor E line @ [CHR 0x0A]"

definition log_msg :: "Build \<Rightarrow> int \<Rightarrow> string \<Rightarrow> MsgBroadcast" where
  "log_msg b taskID pline =
     \<lparr>msg_Type = ''build:log:'' @ Itoa (ID b),
      msg_Data = LogData \<lparr>cld_TaskID = taskID, cld_Data = pline\<rparr>\<rparr>"

text \<open>\<open>buffer\<close> is the buffered writer, named by the file behind it. \<open>EvWriteString\<close>
  records the call of \<open>WriteString\<close>; when it fails the error is logged and the line is
  broadcast all the same.\<close>

definition ProcessLogEntry ::
  "env \<Rightarrow> Build \<Rightarrow> string \<Rightarrow> string \<Rightarrow> int \<Rightarrow> Time \<Rightarrow> world \<Rightarrow> world" where
  "ProcessLogEntry E b line buffer taskID startedAt w =
     (let pline = log_line E line startedAt w;
          w1 = emit (EvWriteString buffer pline) w;
          w2 = (case bufio_failure E buffer w1 of Some e \<Rightarrow> Logger (LogErr e) w1 | None \<Rightarrow> w1)
      in emit (EvBroadcast (log_msg b taskID pline)) w2)"

subsection \<open>Running one task\<close>

definition generateDefaultEnvVariables :: "env \<Rightarrow> Build \<Rightarrow> string list" where
  "generateDefaultEnvVariables E b =
     [''WAKE_BUILD_ID='' @ Itoa (ID b),
      ''WAKE_BUILD_WORKSPACE='' @ GetWorkspaceDir E b,
      ''WAKE_JOB_NAME='' @ job_Name (Job b),
      ''WAKE_CONFIG_DIR='' @ JobDir (Config E)]
     @ (if Port (Config E) = ''443'' then [''WAKE_URL=https://'' @ Hostname (Config E) @ ''/'']
        else [''WAKE_URL=http://localhost:'' @ Port (Config E) @ ''/''])"

text \<open>The environment of the command. Each parameter map is taken as the list of its
  pairs (Go fixes no order for the keys of one map).\<close>

definition task_Env :: "env \<Rightarrow> Build \<Rightarrow> string list" where
  "task_Env E b =
     os_Environ E @ generateDefaultEnvVariables E b
       @ concat (map (map (\<lambda>(pkey, pval). pkey @ ''='' @ pval)) (Params b))"

text \<open>
  The goroutine of \<open>runTask\<close> that selects over stdout, stderr and the abort channel, as a
  loop over what the selects yield, in order. \<open>so\<close> and \<open>se\<close> say whether \<open>taskCmd.Stdout\<close>
  and \<open>taskCmd.Stderr\<close> are still non-nil. The loop ends when both are nil. The result has
  the build and the world that the loop reaches, and whether it came to its end: it does
  not when the events run out before both streams are closed, and a channel that was
  set to nil is never selected again, so nothing follows an event of such a channel.
\<close>

fun drain ::
  "env \<Rightarrow> Task \<Rightarrow> string \<Rightarrow> bool \<Rightarrow> bool \<Rightarrow> select_event list \<Rightarrow> Build \<Rightarrow> world
     \<Rightarrow> bool \<times> Build \<times> world" where
  "drain E task bw so se [] b w = (\<not> (so \<or> se), b, w)"
| "drain E task bw so se (ev # evs) b w =
     (if \<not> (so \<or> se) then (True, b, w)
      else case ev of
          SelStdout line \<Rightarrow>
            if so
            then drain E task bw so se evs b
                   (ProcessLogEntry E b line bw (task_ID task) (task_startedAt task) w)
            else (False, b, w)
        | SelStdoutClosed \<Rightarrow> if so then drain E task bw False se evs b w else (False, b, w)
        | SelStderr line \<Rightarrow>
            if se
            then drain E task bw so se evs b
                   (ProcessLogEntry E b line bw (task_ID task) (task_startedAt task) w)
            else (False, b, w)
        | SelStderrClosed \<Rightarrow> if se then drain E task bw so False evs b w else (False, b, w)
        | SelAbort toAbort \<Rightarrow>
            (let w1 = Logger LogAborting (emit (EvRecvAbort toAbort) w);
                 w2 = ProcessLogEntry E b ''Aborted.'' bw (task_ID task) (task_startedAt task) w1
             in if toAbort
                then drain E task bw so se evs (b\<lparr>aborted := True\<rparr>) (emit EvCmdStop w2)
                else drain E task bw so se evs b w2))"

text \<open>What arrives on the channels of the two streams when the process prints the lines of
  \<open>evs\<close> and the streams have line buffers of \<open>n\<close> bytes.\<close>

definition stream :: "env \<Rightarrow> nat \<Rightarrow> select_event list \<Rightarrow> select_event list" where
  "stream E n evs =
     concat (map (\<lambda>ev. case ev of
                        SelStdout line \<Rightarrow> map SelStdout (OutputStream E n line)
                      | SelStderr line \<Rightarrow> map SelStderr (OutputStream E n line)
                      | _ \<Rightarrow> [ev]) evs)"

text \<open>
  The deferred calls of \<open>runTask\<close>, in the order they run: flush, close, and the line of
  the logger. When \<open>os.Create\<close> failed the file is nil: nothing is buffered, so the flush
  reports nothing, and closing a nil file reports an invalid argument.
\<close>

definition runTask_deferred :: "env \<Rightarrow> string \<Rightarrow> bool \<Rightarrow> int \<Rightarrow> world \<Rightarrow> world" where
  "runTask_deferred E file created taskID w =
     (let w1 = emit (EvFlush file) w;
          w2 = (case (if created then bufio_failure E file w1 else None) of
                  Some err \<Rightarrow> Logger (LogErr err) w1
                | None \<Rightarrow> w1);
          w3 = emit (EvClose file) w2;
          w4 = (case (if created then file_Close E file w3 else Some (Error ''invalid argument'')) of
                  Some err \<Rightarrow> Logger (LogErr err) w3
                | None \<Rightarrow> w3)
      in Logger (LogTaskCompleted taskID) w4)"

text \<open>The decision at the end of \<open>runTask\<close> (lines 193 to 201).\<close>

definition task_result :: "bool \<Rightarrow> cmd_Status \<Rightarrow> ItemStatus" where
  "task_result flag status =
     (if flag then StatusAborted
      else if \<not> Complete status \<or> Exit status \<noteq> 0 \<or> cmd_Error status \<noteq> None then StatusFailed
      else StatusFinished)"

text \<open>
  \<open>runTask\<close> up to the creation of the command (lines 108 to 119): the line of the logger,
  the assignment to \<open>cmd.DEFAULT_LINE_BUFFER_SIZE\<close> and \<open>cmd.NewCmdOptions\<close>. And, once the log
  file is created, up to the start of the command: the command line goes to the log and
  the process is started.
\<close>

definition runTask_created :: "Task \<Rightarrow> world \<Rightarrow> world" where
  "runTask_created task w =
     (let w1 = Logger (LogTaskStarted (task_ID task)) w;
          w2 = w1\<lparr>DEFAULT_LINE_BUFFER_SIZE := 491520\<rparr>
      in emit (EvNewCmd [''bash'', ''-c'', task_Command task] (DEFAULT_LINE_BUFFER_SIZE w2)) w2)"

definition runTask_started :: "env \<Rightarrow> Build \<Rightarrow> Task \<Rightarrow> world \<Rightarrow> world" where
  "runTask_started E b task w =
     (let file = task_log_file E b task;
          w1 = emit (EvCreate file) w;
          w2 = ProcessLogEntry E b (task_Command task) file (task_ID task) (task_startedAt task) w1
      in emit (EvCmdStart (task_Command task) (GetWorkspaceDir E b) (task_Env E b)) w2)"

text \<open>
  One call of \<open>runTask\<close>, as far as it gets: the status it returns, if it returns, with the
  build (its \<open>aborted\<close> flag may be set) and the world it reaches. The streams of the command
  have line buffers of the size that \<open>cmd.DEFAULT_LINE_BUFFER_SIZE\<close> had when the command was
  created. The call does not return when the select loop never ends: it stays at
  \<open><-doneChan\<close>. The main goroutine logs the result of the process while the other one may
  still drain lines; the model puts that line of the logger after the drain.
\<close>

definition runTask_run ::
  "env \<Rightarrow> Build \<Rightarrow> Task \<Rightarrow> world \<Rightarrow> ItemStatus option \<times> Build \<times> world" where
  "runTask_run E b task w =
     (let w1 = runTask_created task w;
          file = task_log_file E b task
      in case os_Create E file w1 of
           Some err \<Rightarrow>
             (Some StatusFailed, b,
              runTask_deferred E file False (task_ID task) (Logger (LogErr err) w1))
         | None \<Rightarrow>
             (let w2 = runTask_started E b task w1;
                  run = cmd_run E b task w2
              in case drain E task file True True
                        (stream E (DEFAULT_LINE_BUFFER_SIZE w1) (fst run)) b w2 of
                   (False, b', w3) \<Rightarrow> (None, b', w3)
                 | (True, b', w3) \<Rightarrow>
                     (let status = snd run;
                          w4 = Logger (LogTaskResult (task_ID task) (Complete status) (Exit status)
                                         (cmd_Error status)) w3
                      in (Some (task_result (aborted b') status), b',
                          runTask_deferred E file True (task_ID task) w4))))"

text \<open>\<open>runTask\<close> as its callers see it: a call that never returns (\<open>None\<close>) blocks them for
  good.\<close>

definition runTask :: "env \<Rightarrow> Build \<Rightarrow> Task \<Rightarrow> world \<Rightarrow> (ItemStatus \<times> Build \<times> world) option" where
  "runTask E b task w =
     (case runTask_run E b task w of
        (None, b', w') \<Rightarrow> None
      | (Some status, b', w') \<Rightarrow> Some (status, b', w'))"

subsection \<open>Hook tasks\<close>

definition set_task :: "nat \<Rightarrow> Task \<Rightarrow> Build \<Rightarrow> Build" where
  "set_task i t b = b\<lparr>Job := (Job b)\<lparr>job_Tasks := (job_Tasks (Job b))[i := t]\<rparr>\<rparr>"

definition get_task :: "Build \<Rightarrow> nat \<Rightarrow> Task" where
  "get_task b i = job_Tasks (Job b) ! i"

text \<open>
  The loops over \<open>b.Job.Tasks\<close> run over the positions of the slice as it is when the loop
  starts; the tasks are reached through pointers, so what an earlier step wrote into a
  task is what a later step reads. The positions handed to the loops are those of the
  slice, whose length no step changes.
\<close>

fun run_hooks :: "env \<Rightarrow> ItemStatus \<Rightarrow> nat list \<Rightarrow> Build \<Rightarrow> world \<Rightarrow> (Build \<times> world) option" where
  "run_hooks E status [] b w = Some (b, w)"
| "run_hooks E status (i # is) b w =
     (if task_Kind (get_task b i) = status
      then (let b1 = set_task i ((get_task b i)\<lparr>task_Status := StatusRunning,
                                                task_startedAt := time_Now E w\<rparr>) b
            in case runTask E b1 (get_task b1 i) w of
                 None \<Rightarrow> None
               | Some (st, b2, w2) \<Rightarrow>
                   run_hooks E status is
                     (set_task i ((get_task b2 i)\<lparr>task_Status := st,
                        task_duration := time_Since E (task_startedAt (get_task b2 i)) w2\<rparr>) b2)
                     w2)
      else run_hooks E status is b w)"

definition runOnStatusTasks :: "env \<Rightarrow> ItemStatus \<Rightarrow> Build \<Rightarrow> world \<Rightarrow> (Build \<times> world) option" where
  "runOnStatusTasks E status b w =
     (let b0 = (if status = StatusPending then b\<lparr>pendingTasksWG := pendingTasksWG b + 1\<rparr> else b)
      in case run_hooks E status [0..<length (job_Tasks (Job b0))] b0 w of
           None \<Rightarrow> None
         | Some (b1, w1) \<Rightarrow>
             Some (if status = StatusPending then b1\<lparr>pendingTasksWG := pendingTasksWG b1 - 1\<rparr>
                   else b1, w1))"

subsection \<open>Artifacts and cleanup\<close>

definition MkdirAll :: "env \<Rightarrow> string \<Rightarrow> world \<Rightarrow> error + world" where
  "MkdirAll E dir w =
     (case os_MkdirAll E dir w of
        Some err \<Rightarrow> Inl err
      | None \<Rightarrow> Inr (emit (EvMkdirAll dir) w))"

fun collect_files :: "env \<Rightarrow> string list \<Rightarrow> Build \<Rightarrow> world \<Rightarrow> Build \<times> world" where
  "collect_files E [] b w = (b, w)"
| "collect_files E (f # fs) b w =
     (case os_Stat E f w of
        StatNotExist err \<Rightarrow> collect_files E fs b (Logger (LogErr err) w)
      | StatErr err \<Rightarrow> collect_files E fs b (Logger (LogErr err) w)
      | StatOK isDir \<Rightarrow>
          if isDir then collect_files E fs b w
          else (let relPath = TrimPrefix f (GetWorkspaceDir E b);
                    relDir = fst (filepath_Split relPath)
                in case MkdirAll E (GetArtifactsDir E b @ relDir) w of
                     Inl err \<Rightarrow> collect_files E fs b (Logger (LogErr err) w)
                   | Inr w1 \<Rightarrow>
                       (let w2 = emit (EvCp f (GetArtifactsDir E b @ relPath))
                                   (Logger (LogCopying relPath) w1);
                            code = cp_exit E f (GetArtifactsDir E b @ relPath) w2
                        in if code \<noteq> 0
                           then collect_files E fs b (Logger (LogUnableToCopy f code) w2)
                           else collect_files E fs (b\<lparr>Artifacts := Artifacts b @ [relPath]\<rparr>) w2)))"

fun collect_patterns :: "env \<Rightarrow> string list \<Rightarrow> Build \<Rightarrow> world \<Rightarrow> Build \<times> world" where
  "collect_patterns E [] b w = (b, w)"
| "collect_patterns E (artPattern # ps) b w =
     (case doublestar_Glob E (GetWorkspaceDir E b @ artPattern) w of
        Inl err \<Rightarrow> collect_patterns E ps b (Logger (LogErr err) w)
      | Inr files \<Rightarrow>
          (case collect_files E files b w of (b1, w1) \<Rightarrow> collect_patterns E ps b1 w1))"

definition CollectArtifacts :: "env \<Rightarrow> Build \<Rightarrow> world \<Rightarrow> Build \<times> world" where
  "CollectArtifacts E b w = collect_patterns E (job_Artifacts (Job b)) b w"

text \<open>\<open>Cleanup\<close>: the queue is declared in another file; its two calls are events.\<close>

definition Cleanup :: "Build \<Rightarrow> world \<Rightarrow> world" where
  "Cleanup b w =
     emit EvQTake (emit (EvQRemove (ID b)) (if timer b \<noteq> None then emit EvTimerStop w else w))"

subsection \<open>Status transitions\<close>

text \<open>
  The switch of \<open>SetBuildStatus\<close>. The goroutines it starts (the pending hook tasks, the
  wait for the timer) are events here; their own steps are not part of this call.
\<close>

definition arm_timer :: "env \<Rightarrow> Build \<Rightarrow> world \<Rightarrow> Build \<times> world" where
  "arm_timer E b w =
     (if job_Timeout (Job b) \<noteq> []
      then (case time_ParseDuration E (job_Timeout (Job b)) of
              Inl err \<Rightarrow> (b, Logger (LogErr err) w)
            | Inr duration \<Rightarrow> (b\<lparr>timer := Some duration\<rparr>, emit (EvGo (GoTimeout duration)) w))
      else (b, w))"

definition finish_build :: "env \<Rightarrow> Build \<Rightarrow> world \<Rightarrow> Build \<times> world" where
  "finish_build E b w = (b\<lparr>Duration := time_Since E (StartedAt b) w\<rparr>, Cleanup b w)"

definition status_actions ::
  "env \<Rightarrow> ItemStatus \<Rightarrow> Build \<Rightarrow> world \<Rightarrow> (Build \<times> world) option" where
  "status_actions E status b w =
     (if status = StatusPending then Some (b, emit (EvGo GoPendingTasks) w)
      else if status = StatusRunning then
        (case arm_timer E (b\<lparr>StartedAt := time_Now E w\<rparr>) w of
           (b1, w1) \<Rightarrow> runOnStatusTasks E status b1 w1)
      else if status = StatusAborted then
        (case runOnStatusTasks E status b w of
           None \<Rightarrow> None
         | Some (b1, w1) \<Rightarrow> Some (finish_build E b1 w1))
      else if status = StatusFailed then
        (case runOnStatusTasks E status b w of
           None \<Rightarrow> None
         | Some (b1, w1) \<Rightarrow> Some (finish_build E b1 w1))
      else if status = StatusFinished then
        (case CollectArtifacts E b w of
           (b1, w1) \<Rightarrow>
             (case runOnStatusTasks E status b1 w1 of
                None \<Rightarrow> None
              | Some (b2, w2) \<Rightarrow> Some (finish_build E b2 w2)))
      else Some (b, w))"

text \<open>
  \<open>SetBuildStatus\<close>: log, set the status, wait for the wait-group, run the switch, and
  (deferred) broadcast. Within one thread of control nobody else can bring the counter of
  the wait-group down, so a positive counter blocks the call for good (\<open>None\<close>).
\<close>

definition SetBuildStatus ::
  "env \<Rightarrow> ItemStatus \<Rightarrow> Build \<Rightarrow> world \<Rightarrow> (Build \<times> world) option" where
  "SetBuildStatus E status b w =
     (let w1 = Logger (LogStatus status) w;
          b1 = b\<lparr>Status := status\<rparr>
      in if pendingTasksWG b1 \<noteq> 0 then None
         else case status_actions E status b1 w1 of
                None \<Rightarrow> None
              | Some (b2, w2) \<Rightarrow> Some (b2, BroadcastUpdate E b2 w2))"

subsection \<open>The main tasks\<close>

text \<open>The loop of \<open>Start\<close> and, after it, the transition to finished.\<close>

fun main_tasks :: "env \<Rightarrow> nat list \<Rightarrow> Build \<Rightarrow> world \<Rightarrow> (Build \<times> world) option" where
  "main_tasks E [] b w = SetBuildStatus E StatusFinished b w"
| "main_tasks E (i # is) b w =
     (if task_Kind (get_task b i) \<noteq> KindMain then main_tasks E is b w
      else (let b1 = set_task i ((get_task b i)\<lparr>task_Status := StatusRunning,
                                                task_startedAt := time_Now E w\<rparr>) b;
                w1 = BroadcastUpdate E b1 w
            in case runTask E b1 (get_task b1 i) w1 of
                 None \<Rightarrow> None
               | Some (status, b2, w2) \<Rightarrow>
                   (let b3 = set_task i ((get_task b2 i)\<lparr>task_Status := status,
                               task_duration := time_Since E (task_startedAt (get_task b2 i)) w2\<rparr>) b2
                    in if status = StatusFailed then SetBuildStatus E StatusFailed b3 w2
                       else if status = StatusAborted then SetBuildStatus E StatusAborted b3 w2
                       else main_tasks E is b3 (BroadcastUpdate E b3 w2))))"

definition Start :: "env \<Rightarrow> Build \<Rightarrow> world \<Rightarrow> (Build \<times> world) option" where
  "Start E b w =
     (case SetBuildStatus E StatusRunning b w of
        None \<Rightarrow> None
      | Some (b1, w1) \<Rightarrow> main_tasks E [0..<length (job_Tasks (Job b1))] b1 w1)"

subsection \<open>Creating a build\<close>

text \<open>Go's \<open>int\<close> has 64 bits here: \<open>counti++\<close> wraps around.\<close>

definition int64 :: "int \<Rightarrow> int" where
  "int64 x = (x + 2 ^ 63) mod 2 ^ 64 - 2 ^ 63"

text \<open>
  The transaction of \<open>CreateBuild\<close> on the \<open>count\<close> key of the global bucket. An error of
  \<open>ByteToInt\<close> or of the commit rolls the transaction back.
\<close>

definition allocate_ID :: "env \<Rightarrow> world \<Rightarrow> error + int \<times> world" where
  "allocate_ID E w =
     (case (case gcount w of
              None \<Rightarrow> Inr 1
            | Some count \<Rightarrow>
                (case ByteToInt E count of Inl err \<Rightarrow> Inl err | Inr c \<Rightarrow> Inr (int64 (c + 1)))) of
        Inl err \<Rightarrow> Inl err
      | Inr counti \<Rightarrow>
          (case DB_commit E w of
             Some err \<Rightarrow> Inl err
           | None \<Rightarrow> Inr (counti, w\<lparr>gcount := Some (Itoa counti)\<rparr>)))"

definition new_build :: "Job \<Rightarrow> int \<Rightarrow> Build" where
  "new_build job counti =
     \<lparr>ID = counti, Job = job, Status = [], pendingTasksWG = 0, aborted = False,
      Params = job_DefaultParams job, Artifacts = [], StartedAt = 0, Duration = 0, timer = None\<rparr>"

definition CreateBuild ::
  "env \<Rightarrow> Job \<Rightarrow> string \<Rightarrow> world \<Rightarrow> ((error + Build) \<times> world) option" where
  "CreateBuild E job jobPath w =
     (case allocate_ID E w of
        Inl err \<Rightarrow> Some (Inl err, w)
      | Inr (counti, w1) \<Rightarrow>
          (let build = new_build job counti
           in case MkdirAll E (GetWorkspaceDir E build) w1 of
                Inl err \<Rightarrow> Some (Inl err, Logger (LogErr err) w1)
              | Inr w2 \<Rightarrow>
                 (case MkdirAll E (GetWakespaceDir E build) (Logger (LogCreated (GetWorkspaceDir E build)) w2) of
                    Inl err \<Rightarrow> Some (Inl err, Logger (LogErr err) (Logger (LogCreated (GetWorkspaceDir E build)) w2))
                  | Inr w3 \<Rightarrow>
                     (case MkdirAll E (GetArtifactsDir E build) (Logger (LogCreated (GetWakespaceDir E build)) w3) of
                        Inl err \<Rightarrow> Some (Inl err, Logger (LogErr err) (Logger (LogCreated (GetWakespaceDir E build)) w3))
                      | Inr w4 \<Rightarrow>
                         (case os_ReadFile E jobPath w4 of
                            Inl err \<Rightarrow> Some (Inl err, Logger (LogErr err) w4)
                          | Inr input \<Rightarrow>
                             (case os_WriteFile E (GetBuildConfigFilename E build) input w4 of
                                Some err \<Rightarrow> Some (Inl err, Logger (LogErr err) w4)
                              | None \<Rightarrow>
                                 (case SetBuildStatus E StatusPending build
                                         (Logger (LogCreated (GetBuildConfigFilename E build))
                                            (emit (EvWriteFile (GetBuildConfigFilename E build) input) w4)) of
                                    None \<Rightarrow> None
                                  | Some (b, w5) \<Rightarrow> Some (Inr b, w5))))))))"

section \<open>The build handlers\<close>

text \<open>\<open>getBuildConfig\<close>, from the file of the build handlers (\<open>src/unnamed/part_000\<close>).\<close>

definition getBuildConfig :: "env \<Rightarrow> int \<Rightarrow> world \<Rightarrow> error + Job" where
  "getBuildConfig E buildID w =
     (let buildConfigDir = WorkDir (Config E) @ ''wakespace/'' @ Itoa buildID;
          newConfigFilename = buildConfigDir @ ''/build_plan'' @ jobsExt (Config E);
          oldConfigFilename = buildConfigDir @ ''/build'' @ jobsExt (Config E)
      in case os_Stat E newConfigFilename w of
           StatNotExist err \<Rightarrow>
             (case os_Stat E oldConfigFilename w of
                StatNotExist err' \<Rightarrow> Inl err'
              | StatErr err' \<Rightarrow> CreateJobFromFile E oldConfigFilename w
              | StatOK isDir \<Rightarrow> CreateJobFromFile E oldConfigFilename w)
         | StatErr err \<Rightarrow> Inl err
         | StatOK isDir \<Rightarrow>
             (case os_ReadFile E newConfigFilename w of
                Inl err \<Rightarrow> Inl err
              | Inr data \<Rightarrow> yaml_Unmarshal E data))"

section \<open>The pending hook tasks beside the caller\<close>

text \<open>
  \<open>SetBuildStatus(StatusPending)\<close> starts \<open>runOnStatusTasks\<close> in a goroutine of its own, which
  shares the build with the caller. The two run interleaved. A state of the pair has
  the build and the world, the calls of \<open>SetBuildStatus\<close> that the caller still has to
  make, and where each of the two stands:
  \<^item> the caller is between calls (\<open>Idle\<close>), has logged and written the status of the call
    and stands before \<open>pendingTasksWG.Wait()\<close> (\<open>Entered\<close>), has come past the wait and
    stands before the switch (\<open>Waited\<close>), or has run the switch and has the deferred
    broadcast left (\<open>Switched\<close>);
  \<^item> the goroutine does not exist yet (\<open>NotSpawned\<close>), exists but has not run its first
    statement (\<open>Spawned\<close>), has called \<open>pendingTasksWG.Add(1)\<close> (\<open>Added\<close>), or has run its tasks
    and the deferred \<open>pendingTasksWG.Done()\<close> (\<open>Finished\<close>).
  Each step is one of these pieces, taken from the definitions above; a schedule says
  whose step comes next.
\<close>

datatype caller_pc = Idle | Entered ItemStatus | Waited ItemStatus | Switched ItemStatus

datatype hook_pc = NotSpawned | Spawned | Added | Finished

datatype thread = Caller | Hook

record system =
  sys_build :: Build
  sys_world :: world
  to_call :: "ItemStatus list"
  caller :: caller_pc
  hook :: hook_pc

definition caller_step :: "env \<Rightarrow> system \<Rightarrow> system option" where
  "caller_step E s =
     (case caller s of
        Idle \<Rightarrow>
          (case to_call s of
             [] \<Rightarrow> None
           | status # rest \<Rightarrow>
               Some (s\<lparr>sys_build := (sys_build s)\<lparr>Status := status\<rparr>,
                       sys_world := Logger (LogStatus status) (sys_world s),
                       to_call := rest, caller := Entered status\<rparr>))
      | Entered status \<Rightarrow>
          if pendingTasksWG (sys_build s) \<noteq> 0 then None
          else Some (s\<lparr>caller := Waited status\<rparr>)
      | Waited status \<Rightarrow>
          (case status_actions E status (sys_build s) (sys_world s) of
             None \<Rightarrow> None
           | Some (b, w) \<Rightarrow>
               Some (s\<lparr>sys_build := b, sys_world := w, caller := Switched status,
                       hook := (if status = StatusPending then Spawned else hook s)\<rparr>))
      | Switched status \<Rightarrow>
          Some (s\<lparr>sys_world := BroadcastUpdate E (sys_build s) (sys_world s), caller := Idle\<rparr>))"

definition hook_step :: "env \<Rightarrow> system \<Rightarrow> system option" where
  "hook_step E s =
     (case hook s of
        NotSpawned \<Rightarrow> None
      | Spawned \<Rightarrow>
          Some (s\<lparr>sys_build := (sys_build s)\<lparr>pendingTasksWG := pendingTasksWG (sys_build s) + 1\<rparr>,
                  hook := Added\<rparr>)
      | Added \<Rightarrow>
          (case run_hooks E StatusPending [0..<length (job_Tasks (Job (sys_build s)))]
                  (sys_build s) (sys_world s) of
             None \<Rightarrow> None
           | Some (b, w) \<Rightarrow>
               Some (s\<lparr>sys_build := b\<lparr>pendingTasksWG := pendingTasksWG b - 1\<rparr>, sys_world := w,
                       hook := Finished\<rparr>))
      | Finished \<Rightarrow> None)"

definition thread_step :: "env \<Rightarrow> thread \<Rightarrow> system \<Rightarrow> system option" where
  "thread_step E t s = (case t of Caller \<Rightarrow> caller_step E s | Hook \<Rightarrow> hook_step E s)"

text \<open>A schedule runs as long as the thread whose turn it is can take its step; \<open>None\<close> when
  it is that of a thread that is blocked or has nothing left to do.\<close>

fun run_schedule :: "env \<Rightarrow> thread list \<Rightarrow> system \<Rightarrow> system option" where
  "run_schedule E [] s = Some s"
| "run_schedule E (t # ts) s =
     (case thread_step E t s of None \<Rightarrow> None | Some s' \<Rightarrow> run_schedule E ts s')"

definition start_system :: "Build \<Rightarrow> world \<Rightarrow> ItemStatus list \<Rightarrow> system" where
  "start_system b w todo =
     \<lparr>sys_build = b, sys_world = w, to_call = todo, caller = Idle, hook = NotSpawned\<rparr>"

text \<open>
  What the comment in \<open>SetBuildStatus\<close> and the spec ask for: while the caller is past the
  wait of a call (it runs the switch, or has run it), no pending hook task is
  outstanding: the goroutine, if the transition to pending started one, has finished.
\<close>

definition waits_for_hooks :: "system \<Rightarrow> bool" where
  "waits_for_hooks s \<longleftrightarrow>
     (case caller s of
        Waited status \<Rightarrow> status = StatusPending \<or> hook s = NotSpawned \<or> hook s = Finished
      | Switched status \<Rightarrow> status = StatusPending \<or> hook s = NotSpawned \<or> hook s = Finished
      | _ \<Rightarrow> True)"

section \<open>Observations on traces\<close>

fun is_logger :: "event \<Rightarrow> bool" where
  "is_logger (EvLogger l) = True"
| "is_logger e = False"

definition effects :: "event list \<Rightarrow> event list" where
  "effects es = filter (\<lambda>e. \<not> is_logger e) es"

text \<open>
  The ordering the spec asks of the history store, read along a trace: whenever a
  \<open>build:update\<close> message is sent, the bucket (\<open>h\<close>, updated by the writes met on the way)
  already holds the marshalled data of the message under the key of its build.
\<close>

fun stored_before_broadcast :: "env \<Rightarrow> (string \<rightharpoonup> string) \<Rightarrow> event list \<Rightarrow> bool" where
  "stored_before_broadcast E h [] = True"
| "stored_before_broadcast E h (EvStorePut k v # es) = stored_before_broadcast E (h(k \<mapsto> v)) es"
| "stored_before_broadcast E h (EvBroadcast m # es) =
     (case msg_Data m of
        UpdateData d \<Rightarrow>
          (case h (Itob (bud_ID d)) of
             None \<Rightarrow> False
           | Some v \<Rightarrow> json_Marshal E d = Inr v \<and> stored_before_broadcast E h es)
      | LogData l \<Rightarrow> stored_before_broadcast E h es)"
| "stored_before_broadcast E h (e # es) = stored_before_broadcast E h es"

text \<open>
  The part of a trace that tells which tasks were handed to \<open>runTask\<close>, what their
  processes returned, what was received from the abort channel, which files
  \<open>CollectArtifacts\<close> copied and which status updates were broadcast.
\<close>

fun significant :: "event \<Rightarrow> bool" where
  "significant (EvLogger (LogTaskStarted i)) = True"
| "significant (EvLogger (LogTaskResult i c x e)) = True"
| "significant (EvRecvAbort v) = True"
| "significant (EvCp f d) = True"
| "significant (EvBroadcast m) = (case msg_Data m of UpdateData d \<Rightarrow> True | LogData l \<Rightarrow> False)"
| "significant e = False"

definition skeleton :: "event list \<Rightarrow> event list" where
  "skeleton es = filter significant es"

text \<open>The phases of a build in a trace: the calls of \<open>runTask\<close>, by the ID of the task, and
  the status updates broadcast, by their data.\<close>

datatype phase = Run int | Update BuildUpdateData

fun phase_of :: "event \<Rightarrow> phase list" where
  "phase_of (EvLogger (LogTaskStarted i)) = [Run i]"
| "phase_of (EvBroadcast m) = (case msg_Data m of UpdateData d \<Rightarrow> [Update d] | LogData l \<Rightarrow> [])"
| "phase_of e = []"

definition phases :: "event list \<Rightarrow> phase list" where
  "phases es = concat (map phase_of es)"

fun copy_of :: "event \<Rightarrow> (string \<times> string) list" where
  "copy_of (EvCp f d) = [(f, d)]"
| "copy_of e = []"

definition copies :: "event list \<Rightarrow> (string \<times> string) list" where
  "copies es = concat (map copy_of es)"

fun abort_of :: "event \<Rightarrow> bool list" where
  "abort_of (EvRecvAbort v) = [v]"
| "abort_of e = []"

definition aborts :: "event list \<Rightarrow> bool list" where
  "aborts es = concat (map abort_of es)"

fun result_of :: "event \<Rightarrow> (int \<times> cmd_Status) list" where
  "result_of (EvLogger (LogTaskResult i c x e)) = [(i, \<lparr>Complete = c, Exit = x, cmd_Error = e\<rparr>)]"
| "result_of e = []"

definition results :: "event list \<Rightarrow> (int \<times> cmd_Status) list" where
  "results es = concat (map result_of es)"

text \<open>The data of the last \<open>build:update\<close> message of a build in a trace.\<close>

fun last_update :: "int \<Rightarrow> event list \<Rightarrow> BuildUpdateData option" where
  "last_update i [] = None"
| "last_update i (e # es) =
     (case last_update i es of
        Some d \<Rightarrow> Some d
      | None \<Rightarrow>
          (case e of
             EvBroadcast m \<Rightarrow>
               (case msg_Data m of
                  UpdateData d \<Rightarrow> if bud_ID d = i then Some d else None
                | LogData l \<Rightarrow> None)
           | _ \<Rightarrow> None))"

section \<open>Tasks by kind\<close>

text \<open>The positions of the tasks of one kind, in the order of their declaration, and the
  IDs of the tasks at some positions.\<close>

definition positions :: "string \<Rightarrow> Build \<Rightarrow> nat list" where
  "positions kind b =
     filter (\<lambda>i. task_Kind (get_task b i) = kind) [0..<length (job_Tasks (Job b))]"

definition task_IDs :: "Build \<Rightarrow> nat list \<Rightarrow> int list" where
  "task_IDs b is = map (\<lambda>i. task_ID (get_task b i)) is"

text \<open>The hook tasks that a transition runs within its own call: the tasks whose kind is
  the status, for the four statuses whose case of the switch calls \<open>runOnStatusTasks\<close>
  directly.\<close>

definition hooks :: "ItemStatus \<Rightarrow> Build \<Rightarrow> nat list" where
  "hooks status b =
     (if status \<in> {StatusRunning, StatusAborted, StatusFailed, StatusFinished}
      then positions status b else [])"

text \<open>What running the tasks of one kind leaves of the tasks of a build: their number,
  the ID and the kind of each, and every task of another kind.\<close>

definition same_tasks_except :: "string \<Rightarrow> Build \<Rightarrow> Build \<Rightarrow> bool" where
  "same_tasks_except kind b b' \<longleftrightarrow>
     ID b' = ID b \<and> length (job_Tasks (Job b')) = length (job_Tasks (Job b)) \<and>
     (\<forall>j. task_ID (get_task b' j) = task_ID (get_task b j) \<and>
          task_Kind (get_task b' j) = task_Kind (get_task b j) \<and>
          (task_Kind (get_task b j) \<noteq> kind \<longrightarrow> get_task b' j = get_task b j))"

text \<open>A status update shows the task at a position with a status.\<close>

definition shows_task :: "BuildUpdateData \<Rightarrow> nat \<Rightarrow> ItemStatus \<Rightarrow> bool" where
  "shows_task d i s \<longleftrightarrow> i < length (bud_Tasks d) \<and> ts_Status (bud_Tasks d ! i) = s"

text \<open>
  The rounds of the main tasks as the spec describes them, read off a list of phases:
  for each task that finished (\<open>done\<close>), an update that shows it running, its run, and an
  update that shows it finished, with the status, start and duration it has in the final
  update \<open>fin\<close> of the build; for the task that ended the loop (the first of \<open>rest\<close>, when
  there is one), an update that shows it running, and its run. The result is what follows
  the rounds.
\<close>

fun rounds ::
  "Build \<Rightarrow> BuildUpdateData \<Rightarrow> nat list \<Rightarrow> nat list \<Rightarrow> phase list \<Rightarrow> phase list option" where
  "rounds b fin [] [] ps = Some ps"
| "rounds b fin [] (i # r) (Update d1 # Run t # ps) =
     (if shows_task d1 i StatusRunning \<and> t = task_ID (get_task b i) then Some ps else None)"
| "rounds b fin (i # done) rest (Update d1 # Run t # Update d2 # ps) =
     (if shows_task d1 i StatusRunning \<and> t = task_ID (get_task b i)
         \<and> shows_task d2 i StatusFinished \<and> bud_Tasks d2 ! i = bud_Tasks fin ! i
      then rounds b fin done rest ps else None)"
| "rounds b fin done rest ps = None"

text \<open>
  The outcome of the loop of \<open>Start\<close> over the positions \<open>is\<close>, from build \<open>b\<close> and world \<open>w\<close>
  to \<open>b'\<close> and \<open>w'\<close>: the main tasks among \<open>is\<close> split into those that finished (\<open>done\<close>) and
  the others (\<open>rest\<close>), whose first, if there is one, ended the loop.
\<close>

definition loop_outcome ::
  "nat list \<Rightarrow> Build \<Rightarrow> world \<Rightarrow> Build \<Rightarrow> world \<Rightarrow> nat list \<Rightarrow> nat list \<Rightarrow> bool" where
  "loop_outcome is b w b' w' done rest \<longleftrightarrow>
     filter (\<lambda>i. task_Kind (get_task b i) = KindMain) is = done @ rest
     \<and> (\<exists>ps. phases (trace w') = phases (trace w) @ ps
            \<and> rounds b (GenerateBuildUpdateData b') done rest ps =
                Some (map Run (task_IDs b (hooks (Status b') b))
                        @ [Update (GenerateBuildUpdateData b')]))
     \<and> (\<forall>i\<in>set done. task_Status (get_task b' i) = StatusFinished)
     \<and> (rest = [] \<longrightarrow> Status b' = StatusFinished)
     \<and> (\<forall>i r. rest = i # r \<longrightarrow>
           (Status b' = StatusFailed \<or> Status b' = StatusAborted)
           \<and> task_Status (get_task b' i) = Status b'
           \<and> (\<forall>j\<in>set r. get_task b' j = get_task b j))
     \<and> ID b' = ID b
     \<and> length (job_Tasks (Job b')) = length (job_Tasks (Job b))
     \<and> (\<forall>j. task_ID (get_task b' j) = task_ID (get_task b j)
            \<and> task_Kind (get_task b' j) = task_Kind (get_task b j))
     \<and> (\<forall>j. j \<notin> set is \<and> task_Kind (get_task b j) = KindMain \<longrightarrow> get_task b' j = get_task b j)
     \<and> last_update (ID b) (trace w') = Some (GenerateBuildUpdateData b')
     \<and> (Status b' \<noteq> StatusFinished \<longrightarrow>
           Artifacts b' = Artifacts b \<and> copies (trace w') = copies (trace w))"

section \<open>Sequences of calls\<close>

text \<open>The last ID that the store has on record: 0 on the empty store.\<close>

definition last_ID :: "env \<Rightarrow> world \<Rightarrow> error + int" where
  "last_ID E w = (case gcount w of None \<Rightarrow> Inr 0 | Some count \<Rightarrow> ByteToInt E count)"

text \<open>The IDs of the builds that a sequence of calls of \<open>CreateBuild\<close> creates, one call
  after the other on the same store.\<close>

fun created_IDs :: "env \<Rightarrow> (Job \<times> string) list \<Rightarrow> world \<Rightarrow> int list" where
  "created_IDs E [] w = []"
| "created_IDs E ((job, jobPath) # calls) w =
     (case CreateBuild E job jobPath w of
        None \<Rightarrow> []
      | Some (Inl err, w') \<Rightarrow> created_IDs E calls w'
      | Some (Inr b, w') \<Rightarrow> ID b # created_IDs E calls w')"

text \<open>The IDs that the same calls take from the counter: one for each call whose
  transaction commits, whether or not the call goes on to create its build.\<close>

fun allocated_IDs :: "env \<Rightarrow> (Job \<times> string) list \<Rightarrow> world \<Rightarrow> int list" where
  "allocated_IDs E [] w = []"
| "allocated_IDs E ((job, jobPath) # calls) w =
     (case CreateBuild E job jobPath w of
        None \<Rightarrow> []
      | Some (r, w') \<Rightarrow>
          (case allocate_ID E w of Inl err \<Rightarrow> [] | Inr (counti, w1) \<Rightarrow> [counti])
            @ allocated_IDs E calls w')"

section \<open>Concrete environments and builds\<close>

text \<open>
  An environment where every call succeeds, every process prints nothing and exits
  with 0, and the clock stands at 0. Its \<open>Duration_String\<close> agrees with Go on zero and on
  whole milliseconds below a second; a job read from a file is named after what it was
  read from. The examples below change one answer at a time.
\<close>

definition config0 :: Config where
  "config0 = \<lparr>WorkDir = ''/w/'', JobDir = ''/jobs/'', Port = ''8081'', Hostname = ''localhost'',
              jobsExt = ''.yaml''\<rparr>"

definition job0 :: Job where
  "job0 = \<lparr>job_Name = ''demo'', job_Tasks = [], job_Timeout = [], job_Artifacts = [],
           job_DefaultParams = []\<rparr>"

text \<open>A \<open>ByteToInt\<close> that reads the decimal digits \<open>strconv.Itoa\<close> writes.\<close>

fun read_digits :: "nat \<Rightarrow> string \<Rightarrow> nat option" where
  "read_digits acc [] = Some acc"
| "read_digits acc (c # cs) =
     (if 48 \<le> (of_char c :: nat) \<and> (of_char c :: nat) \<le> 57
      then read_digits (acc * 10 + (of_char c - 48)) cs else None)"

definition read_int :: "string \<Rightarrow> error + int" where
  "read_int s =
     (case s of
        [] \<Rightarrow> Inl (Error ''invalid syntax'')
      | c # cs \<Rightarrow>
          (case read_digits 0 s of
             Some n \<Rightarrow> Inr (int n)
           | None \<Rightarrow>
               if c = CHR ''-'' \<and> cs \<noteq> []
               then (case read_digits 0 cs of
                       None \<Rightarrow> Inl (Error ''invalid syntax'')
                     | Some n \<Rightarrow> Inr (- int n))
               else Inl (Error ''invalid syntax'')))"

definition marshal0 :: "BuildUpdateData \<Rightarrow> error + string" where
  "marshal0 d = Inr (Itoa (bud_ID d) @ '':'' @ bud_Status d)"

definition env0 :: env where
  "env0 =
     \<lparr>Config = config0,
      StripColor = (\<lambda>s. s),
      ByteToInt = read_int,
      Duration_String = (\<lambda>d. if d = 0 then ''0s'' else Itoa (d div 1000000) @ ''ms''),
      json_Marshal = marshal0,
      json_Unmarshal = (\<lambda>s. Inl (Error ''unexpected end of JSON input'')),
      yaml_Unmarshal = (\<lambda>s. Inr (job0\<lparr>job_Name := s\<rparr>)),
      CreateJobFromFile = (\<lambda>p w. Inr (job0\<lparr>job_Name := p\<rparr>)),
      time_Now = (\<lambda>w. 0),
      time_ParseDuration = (\<lambda>s. Inl (Error ''invalid duration'')),
      DB_commit = (\<lambda>w. None),
      os_Environ = [],
      os_Create = (\<lambda>p w. None),
      os_MkdirAll = (\<lambda>p w. None),
      os_Stat = (\<lambda>p w. StatOK False),
      os_ReadFile = (\<lambda>p w. Inr (''content of '' @ p)),
      os_WriteFile = (\<lambda>p d w. None),
      bufio_failure = (\<lambda>p w. None),
      file_Close = (\<lambda>p w. None),
      doublestar_Glob = (\<lambda>p w. Inr []),
      cmd_run = (\<lambda>b t w. ([SelStdoutClosed, SelStderrClosed],
                            \<lparr>Complete = True, Exit = 0, cmd_Error = None\<rparr>)),
      OutputStream = (\<lambda>n line. if length line \<le> n then [line] else []),
      cp_exit = (\<lambda>s d w. 0)\<rparr>"

definition world0 :: world where
  "world0 = \<lparr>trace = [], history = Map.empty, gcount = None, DEFAULT_LINE_BUFFER_SIZE = 16384\<rparr>"

definition build0 :: "int \<Rightarrow> Job \<Rightarrow> Build" where
  "build0 i j =
     \<lparr>ID = i, Job = j, Status = [], pendingTasksWG = 0, aborted = False,
      Params = job_DefaultParams j, Artifacts = [], StartedAt = 0, Duration = 0, timer = None\<rparr>"

definition task0 :: "int \<Rightarrow> string \<Rightarrow> string \<Rightarrow> Task" where
  "task0 i kind command =
     \<lparr>task_ID = i, task_Kind = kind, task_Command = command, task_Status = [],
      task_startedAt = 0, task_duration = 0\<rparr>"




text \<open>
  The artifact collection of the spec: the workspace of build 1 holds \<open>out/a.txt\<close> and
  \<open>out/sub/b.txt\<close>, and the job asks for \<open>out/**\<close>.
\<close>

definition job_art :: Job where
  "job_art = job0\<lparr>job_Artifacts := [''out/**'']\<rparr>"

definition env_art :: env where
  "env_art =
     env0\<lparr>doublestar_Glob := \<lambda>p w.
             if p = ''/w/workspace/1/out/**''
             then Inr [''/w/workspace/1/out'', ''/w/workspace/1/out/a.txt'',
                       ''/w/workspace/1/out/sub'', ''/w/workspace/1/out/sub/b.txt'']
             else Inr [],
          os_Stat := \<lambda>p w. StatOK (p = ''/w/workspace/1/out'' \<or> p = ''/w/workspace/1/out/sub'')\<rparr>"

text \<open>Environments for \<open>getBuildConfig\<close> of build 7: one where only the old configuration
  file exists, one where neither file exists.\<close>

definition env_old :: env where
  "env_old =
     env0\<lparr>os_Stat := \<lambda>p w. if p = ''/w/wakespace/7/build_plan.yaml''
                             then StatNotExist (Error ''no such file or directory'')
                             else StatOK False\<rparr>"

definition env_none :: env where
  "env_none = env0\<lparr>os_Stat := \<lambda>p w. StatNotExist (Error ''no such file or directory'')\<rparr>"

text \<open>An environment where the job file \<open>gone.yaml\<close> cannot be read.\<close>

definition env_gone :: env where
  "env_gone =
     env0\<lparr>os_ReadFile := \<lambda>p w. if p = ''gone.yaml''
                                 then Inl (Error ''no such file or directory'')
                                 else Inr (''content of '' @ p)\<rparr>"

text \<open>Three calls of \<open>CreateBuild\<close>, the second for a job file that cannot be read.\<close>

definition three_calls :: "(Job \<times> string) list" where
  "three_calls = [(job0, ''a.yaml''), (job0, ''gone.yaml''), (job0, ''a.yaml'')]"

text \<open>A job with one hook task of kind pending and one main task, and its new build.\<close>

definition job_hook :: Job where
  "job_hook =
     job0\<lparr>job_Tasks := [task0 0 StatusPending ''notify pending'', task0 1 KindMain ''make'']\<rparr>"

text \<open>The schedule where the caller makes the call for pending and goes on to the call
  for running, up to and including its switch, before the goroutine takes its first
  step; and the one where the goroutine takes that step in time.\<close>

definition caller_first :: "thread list" where
  "caller_first = [Caller, Caller, Caller, Caller, Caller, Caller, Caller]"

definition hook_in_time :: "thread list" where
  "hook_in_time = [Caller, Caller, Caller, Caller, Hook, Caller, Caller]"

section \<open>Verified properties\<close>

subsection \<open>Basic facts\<close>

lemma status_distinct [simp]:
  "StatusRunning \<noteq> StatusFailed" "StatusRunning \<noteq> StatusFinished" "StatusRunning \<noteq> StatusPending"
  "StatusRunning \<noteq> StatusAborted" "StatusFailed \<noteq> StatusFinished" "StatusFailed \<noteq> StatusPending"
  "StatusFailed \<noteq> StatusAborted" "StatusFinished \<noteq> StatusPending" "StatusFinished \<noteq> StatusAborted"
  "StatusPending \<noteq> StatusAborted"
  "StatusFailed \<noteq> StatusRunning" "StatusFinished \<noteq> StatusRunning" "StatusPending \<noteq> StatusRunning"
  "StatusAborted \<noteq> StatusRunning" "StatusFinished \<noteq> StatusFailed" "StatusPending \<noteq> StatusFailed"
  "StatusAborted \<noteq> StatusFailed" "StatusPending \<noteq> StatusFinished" "StatusAborted \<noteq> StatusFinished"
  "StatusAborted \<noteq> StatusPending"
  "KindMain \<noteq> StatusRunning" "KindMain \<noteq> StatusFailed" "KindMain \<noteq> StatusFinished"
  "KindMain \<noteq> StatusPending" "KindMain \<noteq> StatusAborted"
  "StatusRunning \<noteq> KindMain" "StatusFailed \<noteq> KindMain" "StatusFinished \<noteq> KindMain"
  "StatusPending \<noteq> KindMain" "StatusAborted \<noteq> KindMain"
  by (simp_all add: StatusRunning_def StatusFailed_def StatusFinished_def StatusPending_def
      StatusAborted_def KindMain_def)

lemma emit_fields [simp]:
  "trace (emit e w) = trace w @ [e]"
  "history (emit e w) = history w"
  "gcount (emit e w) = gcount w"
  "DEFAULT_LINE_BUFFER_SIZE (emit e w) = DEFAULT_LINE_BUFFER_SIZE w"
  by (simp_all add: emit_def)

lemma Logger_fields [simp]:
  "trace (Logger l w) = trace w @ [EvLogger l]"
  "history (Logger l w) = history w"
  "gcount (Logger l w) = gcount w"
  "DEFAULT_LINE_BUFFER_SIZE (Logger l w) = DEFAULT_LINE_BUFFER_SIZE w"
  by (simp_all add: Logger_def)

lemma skeleton_simps [simp]:
  "skeleton [] = []"
  "skeleton (xs @ ys) = skeleton xs @ skeleton ys"
  "skeleton (e # es) = (if significant e then e # skeleton es else skeleton es)"
  by (simp_all add: skeleton_def)

lemma phases_simps [simp]:
  "phases [] = []"
  "phases (xs @ ys) = phases xs @ phases ys"
  "phases (e # es) = phase_of e @ phases es"
  by (simp_all add: phases_def)

lemma copies_simps [simp]:
  "copies [] = []"
  "copies (xs @ ys) = copies xs @ copies ys"
  "copies (e # es) = copy_of e @ copies es"
  by (simp_all add: copies_def)

lemma aborts_simps [simp]:
  "aborts [] = []"
  "aborts (xs @ ys) = aborts xs @ aborts ys"
  "aborts (e # es) = abort_of e @ aborts es"
  by (simp_all add: aborts_def)

lemma results_simps [simp]:
  "results [] = []"
  "results (xs @ ys) = results xs @ results ys"
  "results (e # es) = result_of e @ results es"
  by (simp_all add: results_def)

lemma phase_of_significant: "\<not> significant e \<Longrightarrow> phase_of e = []"
  by (induction e rule: significant.induct) (simp_all split: payload.splits)

lemma copy_of_significant: "\<not> significant e \<Longrightarrow> copy_of e = []"
  by (induction e rule: significant.induct) simp_all



lemma phases_skeleton: "phases (skeleton es) = phases es"
  by (induction es) (simp_all add: phase_of_significant)

lemma copies_skeleton: "copies (skeleton es) = copies es"
  by (induction es) (simp_all add: copy_of_significant)



lemma aborts_map_EvRecvAbort [simp]: "aborts (map EvRecvAbort vs) = vs"
  by (induction vs) simp_all

lemma phases_map_EvRecvAbort [simp]: "phases (map EvRecvAbort vs) = []"
  by (induction vs) simp_all

lemma copies_map_EvRecvAbort [simp]: "copies (map EvRecvAbort vs) = []"
  by (induction vs) simp_all

lemma results_map_EvRecvAbort [simp]: "results (map EvRecvAbort vs) = []"
  by (induction vs) simp_all

subsection \<open>Frames\<close>

lemma ProcessLogEntry_frame [simp]:
  "skeleton (trace (ProcessLogEntry E b line f i t w)) = skeleton (trace w)"
  "history (ProcessLogEntry E b line f i t w) = history w"
  "gcount (ProcessLogEntry E b line f i t w) = gcount w"
  "DEFAULT_LINE_BUFFER_SIZE (ProcessLogEntry E b line f i t w) = DEFAULT_LINE_BUFFER_SIZE w"
  by (simp_all add: ProcessLogEntry_def Let_def log_msg_def split: option.splits)

lemma runTask_deferred_frame [simp]:
  "skeleton (trace (runTask_deferred E f c i w)) = skeleton (trace w)"
  "history (runTask_deferred E f c i w) = history w"
  "gcount (runTask_deferred E f c i w) = gcount w"
  "DEFAULT_LINE_BUFFER_SIZE (runTask_deferred E f c i w) = DEFAULT_LINE_BUFFER_SIZE w"
  by (simp_all add: runTask_deferred_def Let_def split: option.splits)

lemma BroadcastUpdate_frame [simp]:
  "skeleton (trace (BroadcastUpdate E b w)) = skeleton (trace w) @ [EvBroadcast (update_msg b)]"
  "gcount (BroadcastUpdate E b w) = gcount w"
  "DEFAULT_LINE_BUFFER_SIZE (BroadcastUpdate E b w) = DEFAULT_LINE_BUFFER_SIZE w"
  by (simp_all add: BroadcastUpdate_def history_Put_def Let_def update_msg_def
      split: sum.splits option.splits)

lemma drain_frame:
  "drain E task f so se evs b w = (r, b', w') \<Longrightarrow>
     \<exists>vs. skeleton (trace w') = skeleton (trace w) @ map EvRecvAbort vs
        \<and> b' = b\<lparr>aborted := aborted b \<or> True \<in> set vs\<rparr>
        \<and> history w' = history w \<and> gcount w' = gcount w
        \<and> DEFAULT_LINE_BUFFER_SIZE w' = DEFAULT_LINE_BUFFER_SIZE w"
proof (induction evs arbitrary: so se b w)
  case Nil
  then show ?case
    by (auto intro: exI [of _ "[]"])
next
  case (Cons ev evs)
  have stuck: ?case if "b' = b" "w' = w"
    using that by (auto intro: exI [of _ "[]"])
  show ?case
  proof (cases "so \<or> se")
    case False
    with Cons.prems show ?thesis
      by (intro stuck) auto
  next
    case chans: True
    show ?thesis
    proof (cases ev)
      case (SelAbort toAbort)
      let ?w2 = "ProcessLogEntry E b ''Aborted.'' f (task_ID task) (task_startedAt task)
                   (Logger LogAborting (emit (EvRecvAbort toAbort) w))"
      show ?thesis
      proof (cases toAbort)
        case True
        with Cons.prems chans SelAbort
        have "drain E task f so se evs (b\<lparr>aborted := True\<rparr>) (emit EvCmdStop ?w2) = (r, b', w')"
          by (simp add: Let_def)
        from Cons.IH [OF this] obtain vs where
          "skeleton (trace w') = skeleton (trace (emit EvCmdStop ?w2)) @ map EvRecvAbort vs"
          "b' = b\<lparr>aborted := True\<rparr>\<lparr>aborted := aborted (b\<lparr>aborted := True\<rparr>) \<or> True \<in> set vs\<rparr>"
          "history w' = history w" "gcount w' = gcount w"
          "DEFAULT_LINE_BUFFER_SIZE w' = DEFAULT_LINE_BUFFER_SIZE w"
          by auto
        with True show ?thesis
          by (intro exI [of _ "True # vs"]) simp
      next
        case False
        with Cons.prems chans SelAbort
        have "drain E task f so se evs b ?w2 = (r, b', w')"
          by (simp add: Let_def)
        from Cons.IH [OF this] obtain vs where
          "skeleton (trace w') = skeleton (trace ?w2) @ map EvRecvAbort vs"
          "b' = b\<lparr>aborted := aborted b \<or> True \<in> set vs\<rparr>"
          "history w' = history w" "gcount w' = gcount w"
          "DEFAULT_LINE_BUFFER_SIZE w' = DEFAULT_LINE_BUFFER_SIZE w"
          by auto
        with False show ?thesis
          by (intro exI [of _ "False # vs"]) simp
      qed
    next
      case (SelStdout line)
      show ?thesis
      proof (cases so)
        case True
        with Cons.prems SelStdout have
          "drain E task f so se evs b
             (ProcessLogEntry E b line f (task_ID task) (task_startedAt task) w) = (r, b', w')"
          by simp
        from Cons.IH [OF this] show ?thesis by simp
      next
        case False
        with Cons.prems chans SelStdout show ?thesis
          by (intro stuck) auto
      qed
    next
      case SelStdoutClosed
      show ?thesis
      proof (cases so)
        case True
        with Cons.prems SelStdoutClosed have "drain E task f False se evs b w = (r, b', w')"
          by simp
        from Cons.IH [OF this] show ?thesis by simp
      next
        case False
        with Cons.prems chans SelStdoutClosed show ?thesis
          by (intro stuck) auto
      qed
    next
      case (SelStderr line)
      show ?thesis
      proof (cases se)
        case True
        with Cons.prems SelStderr have
          "drain E task f so se evs b
             (ProcessLogEntry E b line f (task_ID task) (task_startedAt task) w) = (r, b', w')"
          by simp
        from Cons.IH [OF this] show ?thesis by simp
      next
        case False
        with Cons.prems chans SelStderr show ?thesis
          by (intro stuck) auto
      qed
    next
      case SelStderrClosed
      show ?thesis
      proof (cases se)
        case True
        with Cons.prems SelStderrClosed have "drain E task f so False evs b w = (r, b', w')"
          by simp
        from Cons.IH [OF this] show ?thesis by simp
      next
        case False
        with Cons.prems chans SelStderrClosed show ?thesis
          by (intro stuck) auto
      qed
    qed
  qed
qed

subsection \<open>Order of broadcast and store write\<close>

lemma last_update_append:
  "last_update i (xs @ ys) =
     (case last_update i ys of Some d \<Rightarrow> Some d | None \<Rightarrow> last_update i xs)"
  by (induction xs) (auto split: option.splits)

text \<open>
  C1 (as the code has it). \<open>BroadcastUpdate\<close> sends the \<open>build:update\<close> message first and
  writes to the history bucket after it: the trace grows by the broadcast followed by
  either the committed write of the marshalled data under the key of the build, or, when
  marshalling or the commit fails, a logged error and no write at all. No write to the
  store precedes the broadcast.
\<close>

theorem BroadcastUpdate_broadcast_then_store:
  "\<exists>rest. trace (BroadcastUpdate E b w) = trace w @ EvBroadcast (update_msg b) # rest \<and>
     ((\<exists>v. json_Marshal E (GenerateBuildUpdateData b) = Inr v \<and>
           rest = [EvStorePut (Itob (ID b)) v] \<and>
           history (BroadcastUpdate E b w) = (history w)(Itob (ID b) \<mapsto> v))
      \<or> (\<exists>e. rest = [EvLogger (LogErr e)] \<and> history (BroadcastUpdate E b w) = history w))"
  by (auto simp: BroadcastUpdate_def history_Put_def Let_def emit_def Logger_def
      GenerateBuildUpdateData_def split: sum.splits option.splits)

text \<open>
  C1 as the spec states it fails: on the empty store, with every call succeeding, the
  status update of build 1 is sent while the bucket holds nothing under its key.
\<close>

theorem store_before_broadcast_counterexample:
  "\<not> stored_before_broadcast env0 (history world0)
       (trace (BroadcastUpdate env0 (build0 1 job0) world0))"
  by (simp add: BroadcastUpdate_def history_Put_def Let_def emit_def Logger_def
      GenerateBuildUpdateData_def update_msg_def env0_def world0_def build0_def job0_def
      marshal0_def)

subsection \<open>Log lines\<close>

lemma Truncate_Millisecond: "Truncate d Millisecond = sgn d * (\<bar>d\<bar> div 1000000) * 1000000"
proof -
  have "\<bar>d\<bar> - \<bar>d\<bar> mod 1000000 = \<bar>d\<bar> div 1000000 * 1000000"
    by (rule minus_mod_eq_div_mult)
  then have "sgn d * (\<bar>d\<bar> - \<bar>d\<bar> mod 1000000) = sgn d * (\<bar>d\<bar> div 1000000 * 1000000)"
    by (rule arg_cong)
  then have "sgn d * \<bar>d\<bar> - sgn d * (\<bar>d\<bar> mod 1000000) = sgn d * (\<bar>d\<bar> div 1000000) * 1000000"
    by (simp only: right_diff_distrib mult.assoc)
  moreover have "Truncate d Millisecond = d - sgn d * (\<bar>d\<bar> mod 1000000)"
    by (simp add: Truncate_def Millisecond_def)
  ultimately show ?thesis
    by (simp only: sgn_mult_abs)
qed

lemma time_Since_bounded:
  "time_Since E startedAt w =
     (if time_Now E w - startedAt > 9223372036854775807 then 9223372036854775807
      else if time_Now E w - startedAt < - 9223372036854775808 then - 9223372036854775808
      else time_Now E w - startedAt)"
  unfolding time_Since_def time_Sub_def maxDuration_def minDuration_def ..

lemma log_line_format:
  "log_line E line startedAt w =
     (let since = time_Now E w - startedAt;
          d = (if since > 9223372036854775807 then 9223372036854775807
               else if since < - 9223372036854775808 then - 9223372036854775808
               else since);
          elapsed = Duration_String E (sgn d * (\<bar>d\<bar> div 1000000) * 1000000)
      in CHR ''['' # replicate (10 - length elapsed) CHR '' '' @ elapsed @ ''] ''
           @ StripColor E line @ [CHR 0x0A])"
  unfolding log_line_def Truncate_Millisecond time_Since_bounded pad10_def Let_def
  by simp

lemma ProcessLogEntry_effects:
  "effects (trace (ProcessLogEntry E b line buffer taskID startedAt w)) =
     effects (trace w) @
       [EvWriteString buffer (log_line E line startedAt w),
        EvBroadcast \<lparr>msg_Type = ''build:log:'' @ Itoa (ID b),
                     msg_Data = LogData \<lparr>cld_TaskID = taskID,
                                          cld_Data = log_line E line startedAt w\<rparr>\<rparr>]"
  by (simp add: ProcessLogEntry_def Let_def log_msg_def effects_def split: option.splits)

text \<open>
  C7. \<open>ProcessLogEntry\<close> writes to the log file of the task and broadcasts as
  \<open>build:log:<buildID>\<close> one and the same line: an opening bracket, the time since the start
  of the task cut down to whole milliseconds, padded with spaces on the left to ten
  characters, a closing bracket and a space, the line without its colour codes, and a
  newline. The time since the start is the difference between now and the start as a
  \<open>Duration\<close> (the nearest bound of \<open>int64\<close> when the difference is beyond its range); cutting it
  to milliseconds drops what is left of its absolute value below 1000000 nanoseconds. The
  padded field has ten characters, or the length of the duration when that is longer.
\<close>

theorem ProcessLogEntry_line_format:
  "let since = time_Now E w - startedAt;
       d = (if since > 9223372036854775807 then 9223372036854775807
            else if since < - 9223372036854775808 then - 9223372036854775808
            else since);
       elapsed = Duration_String E (sgn d * (\<bar>d\<bar> div 1000000) * 1000000);
       pline = CHR ''['' # replicate (10 - length elapsed) CHR '' '' @ elapsed @ ''] ''
                 @ StripColor E line @ [CHR 0x0A];
       w' = ProcessLogEntry E b line buffer taskID startedAt w
   in effects (trace w') =
        effects (trace w) @
          [EvWriteString buffer pline,
           EvBroadcast \<lparr>msg_Type = ''build:log:'' @ Itoa (ID b),
                        msg_Data = LogData \<lparr>cld_TaskID = taskID, cld_Data = pline\<rparr>\<rparr>]
      \<and> length (replicate (10 - length elapsed) CHR '' '' @ elapsed) = max 10 (length elapsed)
      \<and> history w' = history w"
proof -
  have "length (replicate (10 - n) CHR '' '' @ s) = max 10 (length s)" if "n = length s" for n s
    using that by simp
  then show ?thesis
    unfolding Let_def ProcessLogEntry_effects log_line_format [unfolded Let_def]
    by simp
qed

subsection \<open>Reading a status update back\<close>




lemma runTask_created_fields [simp]:
  "trace (runTask_created task w) =
     trace w @ [EvLogger (LogTaskStarted (task_ID task)),
                EvNewCmd [''bash'', ''-c'', task_Command task] 491520]"
  "history (runTask_created task w) = history w"
  "gcount (runTask_created task w) = gcount w"
  "DEFAULT_LINE_BUFFER_SIZE (runTask_created task w) = 491520"
  by (simp_all add: runTask_created_def Let_def)

lemma runTask_started_frame [simp]:
  "skeleton (trace (runTask_started E b task w)) = skeleton (trace w)"
  "history (runTask_started E b task w) = history w"
  "gcount (runTask_started E b task w) = gcount w"
  "DEFAULT_LINE_BUFFER_SIZE (runTask_started E b task w) = DEFAULT_LINE_BUFFER_SIZE w"
  by (simp_all add: runTask_started_def Let_def)

lemma runTask_run_frame:
  assumes "runTask_run E b task w = (r, b', w')"
  shows "\<exists>vs. b' = b\<lparr>aborted := aborted b \<or> True \<in> set vs\<rparr>
      \<and> DEFAULT_LINE_BUFFER_SIZE w' = 491520 \<and> gcount w' = gcount w \<and> history w' = history w
      \<and> (skeleton (trace w') = skeleton (trace w) @ [EvLogger (LogTaskStarted (task_ID task))]
            \<and> vs = [] \<and> r = Some StatusFailed
          \<or> skeleton (trace w') =
                  skeleton (trace w) @ EvLogger (LogTaskStarted (task_ID task)) # map EvRecvAbort vs
                \<and> r = None
          \<or> (\<exists>s. skeleton (trace w') =
                  skeleton (trace w) @ EvLogger (LogTaskStarted (task_ID task)) # map EvRecvAbort vs
                    @ [EvLogger (LogTaskResult (task_ID task) (Complete s) (Exit s) (cmd_Error s))]
                \<and> r = Some (task_result (aborted b') s)))"
proof (cases "os_Create E (task_log_file E b task) (runTask_created task w)")
  case (Some err)
  with assms show ?thesis
    by (intro exI [of _ "[]"]) (auto simp: runTask_run_def Let_def)
next
  case None
  let ?file = "task_log_file E b task"
  let ?w2 = "runTask_started E b task (runTask_created task w)"
  let ?run = "cmd_run E b task ?w2"
  obtain e b3 w3 where
    dr: "drain E task ?file True True (stream E 491520 (fst ?run)) b ?w2 = (e, b3, w3)"
    using prod_cases3 by blast
  from drain_frame [OF dr] obtain vs where
    fr: "skeleton (trace w3) = skeleton (trace ?w2) @ map EvRecvAbort vs"
    "b3 = b\<lparr>aborted := aborted b \<or> True \<in> set vs\<rparr>"
    "history w3 = history ?w2" "gcount w3 = gcount ?w2"
    "DEFAULT_LINE_BUFFER_SIZE w3 = DEFAULT_LINE_BUFFER_SIZE ?w2"
    by blast
  show ?thesis
  proof (cases e)
    case False
    with assms None dr have "r = None \<and> b' = b3 \<and> w' = w3"
      by (auto simp: runTask_run_def Let_def)
    with fr show ?thesis
      by (intro exI [of _ vs]) simp
  next
    case True
    with assms None dr have
      "r = Some (task_result (aborted b3) (snd ?run)) \<and> b' = b3
       \<and> w' = runTask_deferred E ?file True (task_ID task)
               (Logger (LogTaskResult (task_ID task) (Complete (snd ?run)) (Exit (snd ?run))
                  (cmd_Error (snd ?run))) w3)"
      by (auto simp: runTask_run_def Let_def)
    with fr show ?thesis
      by (intro exI [of _ vs]) auto
  qed
qed

lemma runTask_frame:
  assumes "runTask E b task w = Some (st, b', w')"
  shows "\<exists>vs. b' = b\<lparr>aborted := aborted b \<or> True \<in> set vs\<rparr>
      \<and> DEFAULT_LINE_BUFFER_SIZE w' = 491520 \<and> gcount w' = gcount w \<and> history w' = history w
      \<and> (skeleton (trace w') = skeleton (trace w) @ [EvLogger (LogTaskStarted (task_ID task))]
            \<and> vs = [] \<and> st = StatusFailed
          \<or> (\<exists>s. skeleton (trace w') =
                  skeleton (trace w) @ EvLogger (LogTaskStarted (task_ID task)) # map EvRecvAbort vs
                    @ [EvLogger (LogTaskResult (task_ID task) (Complete s) (Exit s) (cmd_Error s))]
                \<and> st = task_result (aborted b') s))"
proof -
  from assms have "runTask_run E b task w = (Some st, b', w')"
    by (auto simp: runTask_def split: prod.splits option.splits)
  from runTask_run_frame [OF this] show ?thesis
    by auto
qed

lemma runTask_build: "runTask E b task w = Some (st, b', w') \<Longrightarrow> b' = b\<lparr>aborted := aborted b'\<rparr>"
  by (drule runTask_frame) auto

lemma runTask_phases:
  "runTask E b task w = Some (st, b', w') \<Longrightarrow> phases (trace w') = phases (trace w) @ [Run (task_ID task)]"
  by (drule runTask_frame, subst (1 2) phases_skeleton [symmetric]) auto

lemma runTask_copies:
  "runTask E b task w = Some (st, b', w') \<Longrightarrow> copies (trace w') = copies (trace w)"
  by (drule runTask_frame, subst (1 2) copies_skeleton [symmetric]) auto

lemma runTask_status:
  "runTask E b task w = Some (st, b', w') \<Longrightarrow>
     st = StatusFinished \<or> st = StatusFailed \<or> st = StatusAborted"
  by (drule runTask_frame) (auto simp: task_result_def split: if_splits)

subsection \<open>The line buffer\<close>


subsection \<open>The aborted flag and the exit status\<close>


lemma Itoa_0: "Itoa 0 = ''0''" by code_simp
lemma Itoa_1: "Itoa 1 = ''1''" by code_simp
lemma Itoa_2: "Itoa 2 = ''2''" by code_simp
lemma Itoa_3: "Itoa 3 = ''3''" by code_simp

subsection \<open>Evaluating the concrete environments\<close>

lemma env0_fields:
  "Config env0 = config0"
  "StripColor env0 = (\<lambda>s. s)"
  "ByteToInt env0 = read_int"
  "Duration_String env0 = (\<lambda>d. if d = 0 then ''0s'' else Itoa (d div 1000000) @ ''ms'')"
  "json_Marshal env0 = marshal0"
  "json_Unmarshal env0 = (\<lambda>s. Inl (Error ''unexpected end of JSON input''))"
  "yaml_Unmarshal env0 = (\<lambda>s. Inr (job0\<lparr>job_Name := s\<rparr>))"
  "CreateJobFromFile env0 = (\<lambda>p w. Inr (job0\<lparr>job_Name := p\<rparr>))"
  "time_Now env0 = (\<lambda>w. 0)"
  "time_ParseDuration env0 = (\<lambda>s. Inl (Error ''invalid duration''))"
  "DB_commit env0 = (\<lambda>w. None)"
  "os_Environ env0 = []"
  "os_Create env0 = (\<lambda>p w. None)"
  "os_MkdirAll env0 = (\<lambda>p w. None)"
  "os_Stat env0 = (\<lambda>p w. StatOK False)"
  "os_ReadFile env0 = (\<lambda>p w. Inr (''content of '' @ p))"
  "os_WriteFile env0 = (\<lambda>p d w. None)"
  "bufio_failure env0 = (\<lambda>p w. None)"
  "file_Close env0 = (\<lambda>p w. None)"
  "doublestar_Glob env0 = (\<lambda>p w. Inr [])"
  "cmd_run env0 = (\<lambda>b t w. ([SelStdoutClosed, SelStderrClosed],
                            \<lparr>Complete = True, Exit = 0, cmd_Error = None\<rparr>))"
  "OutputStream env0 = (\<lambda>n line. if length line \<le> n then [line] else [])"
  "cp_exit env0 = (\<lambda>s d w. 0)"
  by (simp_all add: env0_def)

lemmas run_defs = runTask_def runTask_run_def runTask_created_def runTask_started_def
  stream_def ProcessLogEntry_def runTask_deferred_def task_result_def Let_def






subsection \<open>Tasks of a build\<close>

lemma get_set_task:
  "get_task (set_task i t b) j =
     (if i = j \<and> i < length (job_Tasks (Job b)) then t else get_task b j)"
  by (cases "i < length (job_Tasks (Job b))")
    (auto simp: get_task_def set_task_def list_update_beyond)

lemma set_task_fields [simp]:
  "ID (set_task i t b) = ID b"
  "Status (set_task i t b) = Status b"
  "pendingTasksWG (set_task i t b) = pendingTasksWG b"
  "aborted (set_task i t b) = aborted b"
  "Params (set_task i t b) = Params b"
  "Artifacts (set_task i t b) = Artifacts b"
  "StartedAt (set_task i t b) = StartedAt b"
  "Duration (set_task i t b) = Duration b"
  "timer (set_task i t b) = timer b"
  "length (job_Tasks (Job (set_task i t b))) = length (job_Tasks (Job b))"
  "job_Name (Job (set_task i t b)) = job_Name (Job b)"
  "job_Timeout (Job (set_task i t b)) = job_Timeout (Job b)"
  "job_Artifacts (Job (set_task i t b)) = job_Artifacts (Job b)"
  by (simp_all add: set_task_def)

lemma same_tasks_refl [simp]: "same_tasks_except k b b"
  by (simp add: same_tasks_except_def)

lemma same_tasks_trans:
  "same_tasks_except k b b' \<Longrightarrow> same_tasks_except k b' b'' \<Longrightarrow> same_tasks_except k b b''"
  by (simp add: same_tasks_except_def)

lemma same_tasks_aborted [simp]: "same_tasks_except k b (b\<lparr>aborted := fl\<rparr>)"
  by (simp add: same_tasks_except_def get_task_def)

lemma same_tasks_set_task:
  "task_Kind (get_task b i) = k \<Longrightarrow> task_ID t = task_ID (get_task b i) \<Longrightarrow> task_Kind t = k \<Longrightarrow>
     same_tasks_except k b (set_task i t b)"
  by (auto simp: same_tasks_except_def get_set_task)

lemma same_tasks_ID: "same_tasks_except k b b' \<Longrightarrow> ID b' = ID b"
  by (simp add: same_tasks_except_def)

lemma same_tasks_length:
  "same_tasks_except k b b' \<Longrightarrow> length (job_Tasks (Job b')) = length (job_Tasks (Job b))"
  by (simp add: same_tasks_except_def)

lemma same_tasks_Kind:
  "same_tasks_except k b b' \<Longrightarrow> task_Kind (get_task b' j) = task_Kind (get_task b j)"
  by (simp add: same_tasks_except_def)

lemma same_tasks_task_ID:
  "same_tasks_except k b b' \<Longrightarrow> task_ID (get_task b' j) = task_ID (get_task b j)"
  by (simp add: same_tasks_except_def)

lemma same_tasks_other:
  "same_tasks_except k b b' \<Longrightarrow> task_Kind (get_task b j) \<noteq> k \<Longrightarrow> get_task b' j = get_task b j"
  by (simp add: same_tasks_except_def)

lemma same_tasks_positions:
  "same_tasks_except k b b' \<Longrightarrow> positions kind b' = positions kind b"
  by (simp add: positions_def same_tasks_Kind same_tasks_length)

lemma same_tasks_filter:
  "same_tasks_except k b b' \<Longrightarrow>
     filter (\<lambda>i. task_Kind (get_task b' i) = kind) is = filter (\<lambda>i. task_Kind (get_task b i) = kind) is"
  by (simp add: same_tasks_Kind)

lemma same_tasks_task_IDs: "same_tasks_except k b b' \<Longrightarrow> task_IDs b' is = task_IDs b is"
  by (simp add: task_IDs_def same_tasks_task_ID)

lemma same_tasks_hooks: "same_tasks_except k b b' \<Longrightarrow> hooks s b' = hooks s b"
  by (simp add: hooks_def same_tasks_positions)

lemma task_IDs_simps [simp]:
  "task_IDs b [] = []"
  "task_IDs b (i # is) = task_ID (get_task b i) # task_IDs b is"
  "task_IDs b (is @ js) = task_IDs b is @ task_IDs b js"
  by (simp_all add: task_IDs_def)

subsection \<open>Hook tasks\<close>

lemma run_hooks_frame:
  "run_hooks E k is b w = Some (b', w') \<Longrightarrow>
     same_tasks_except k b b'
     \<and> phases (trace w') =
         phases (trace w) @ map Run (task_IDs b (filter (\<lambda>i. task_Kind (get_task b i) = k) is))
     \<and> copies (trace w') = copies (trace w) \<and> gcount w' = gcount w
     \<and> Status b' = Status b \<and> Artifacts b' = Artifacts b \<and> pendingTasksWG b' = pendingTasksWG b
     \<and> StartedAt b' = StartedAt b \<and> Duration b' = Duration b \<and> timer b' = timer b"
proof (induction "is" arbitrary: b w)
  case Nil
  then show ?case by simp
next
  case (Cons i "is")
  show ?case
  proof (cases "task_Kind (get_task b i) = k")
    case False
    with Cons.prems have "run_hooks E k is b w = Some (b', w')"
      by simp
    from Cons.IH [OF this] False show ?thesis
      by simp
  next
    case True
    let ?b1 = "set_task i ((get_task b i)\<lparr>task_Status := StatusRunning,
                 task_startedAt := time_Now E w\<rparr>) b"
    from True Cons.prems obtain st b2 w2 where
      run: "runTask E ?b1 (get_task ?b1 i) w = Some (st, b2, w2)"
      and rest: "run_hooks E k is
          (set_task i ((get_task b2 i)\<lparr>task_Status := st,
             task_duration := time_Since E (task_startedAt (get_task b2 i)) w2\<rparr>) b2) w2
          = Some (b', w')"
      by (auto simp: Let_def split: option.splits)
    let ?b3 = "set_task i ((get_task b2 i)\<lparr>task_Status := st,
             task_duration := time_Since E (task_startedAt (get_task b2 i)) w2\<rparr>) b2"
    have s1: "same_tasks_except k b ?b1"
      using True by (intro same_tasks_set_task) simp_all
    from runTask_frame [OF run] obtain vs where
      b2: "b2 = ?b1\<lparr>aborted := aborted ?b1 \<or> True \<in> set vs\<rparr>" and g2: "gcount w2 = gcount w"
      by blast
    have s2: "same_tasks_except k ?b1 b2"
      by (subst b2) simp
    have s12: "same_tasks_except k b b2"
      using s1 s2 by (rule same_tasks_trans)
    have "same_tasks_except k b2 ?b3"
      using True s12 by (intro same_tasks_set_task) (simp_all add: same_tasks_Kind)
    with s12 have s3: "same_tasks_except k b ?b3"
      by (rule same_tasks_trans)
    have f2: "Status b2 = Status b" "Artifacts b2 = Artifacts b" "pendingTasksWG b2 = pendingTasksWG b"
      "StartedAt b2 = StartedAt b" "Duration b2 = Duration b" "timer b2 = timer b"
      by (subst b2, simp)+
    have st2: "phases (trace w2) = phases (trace w) @ [Run (task_ID (get_task b i))]"
      using runTask_phases [OF run] s1 by (simp add: same_tasks_task_ID)
    have c2: "copies (trace w2) = copies (trace w)"
      using runTask_copies [OF run] .
    from Cons.IH [OF rest] have
      "same_tasks_except k ?b3 b'"
      "phases (trace w') =
         phases (trace w2) @ map Run (task_IDs ?b3 (filter (\<lambda>i. task_Kind (get_task ?b3 i) = k) is))"
      "copies (trace w') = copies (trace w2)" "gcount w' = gcount w2"
      "Status b' = Status ?b3" "Artifacts b' = Artifacts ?b3" "pendingTasksWG b' = pendingTasksWG ?b3"
      "StartedAt b' = StartedAt ?b3" "Duration b' = Duration ?b3" "timer b' = timer ?b3"
      by simp_all
    with s3 st2 c2 g2 f2 True show ?thesis
      by (simp add: same_tasks_trans [OF s3] same_tasks_task_IDs [OF s3] same_tasks_filter [OF s3])
  qed
qed

lemma runOnStatusTasks_frame:
  assumes "runOnStatusTasks E k b w = Some (b', w')" and "k \<noteq> StatusPending"
  shows "same_tasks_except k b b'
     \<and> phases (trace w') = phases (trace w) @ map Run (task_IDs b (positions k b))
     \<and> copies (trace w') = copies (trace w) \<and> gcount w' = gcount w
     \<and> Status b' = Status b \<and> Artifacts b' = Artifacts b \<and> pendingTasksWG b' = pendingTasksWG b
     \<and> StartedAt b' = StartedAt b \<and> Duration b' = Duration b \<and> timer b' = timer b"
proof -
  from assms have "run_hooks E k [0..<length (job_Tasks (Job b))] b w = Some (b', w')"
    by (auto simp: runOnStatusTasks_def split: option.splits)
  from run_hooks_frame [OF this] show ?thesis
    by (simp add: positions_def)
qed

subsection \<open>Artifacts\<close>

lemma MkdirAll_frame:
  "MkdirAll E d w = Inr w' \<Longrightarrow>
     skeleton (trace w') = skeleton (trace w) \<and> gcount w' = gcount w \<and> history w' = history w"
  by (auto simp: MkdirAll_def split: option.splits)

lemma collect_files_frame:
  "collect_files E fs b w = (b', w') \<Longrightarrow>
     (\<exists>as. b' = b\<lparr>Artifacts := as\<rparr>) \<and> phases (trace w') = phases (trace w) \<and> gcount w' = gcount w"
proof (induction fs arbitrary: b w)
  case Nil
  then show ?case
    by (auto intro: exI [of _ "Artifacts b"])
next
  case (Cons f fs)
  have upd: "GetWorkspaceDir E (b\<lparr>Artifacts := as\<rparr>) = GetWorkspaceDir E b" for as
    by (simp add: GetWorkspaceDir_def)
  show ?case
  proof (cases "os_Stat E f w")
    case (StatNotExist err)
    with Cons.prems have "collect_files E fs b (Logger (LogErr err) w) = (b', w')"
      by simp
    from Cons.IH [OF this] show ?thesis by simp
  next
    case (StatErr err)
    with Cons.prems have "collect_files E fs b (Logger (LogErr err) w) = (b', w')"
      by simp
    from Cons.IH [OF this] show ?thesis by simp
  next
    case (StatOK isDir)
    show ?thesis
    proof (cases isDir)
      case True
      with StatOK Cons.prems have "collect_files E fs b w = (b', w')"
        by simp
      from Cons.IH [OF this] show ?thesis by simp
    next
      case False
      let ?relPath = "TrimPrefix f (GetWorkspaceDir E b)"
      let ?dir = "GetArtifactsDir E b @ fst (filepath_Split ?relPath)"
      show ?thesis
      proof (cases "MkdirAll E ?dir w")
        case (Inl err)
        with False StatOK Cons.prems have "collect_files E fs b (Logger (LogErr err) w) = (b', w')"
          by (simp add: Let_def)
        from Cons.IH [OF this] show ?thesis by simp
      next
        case (Inr w1)
        let ?w2 = "emit (EvCp f (GetArtifactsDir E b @ ?relPath)) (Logger (LogCopying ?relPath) w1)"
        let ?code = "cp_exit E f (GetArtifactsDir E b @ ?relPath) ?w2"
        from MkdirAll_frame [OF Inr] have
          sk1: "skeleton (trace w1) = skeleton (trace w)" and g1: "gcount w1 = gcount w"
          by simp_all
        from sk1 have "phases (trace w1) = phases (trace w)"
          by (metis phases_skeleton)
        note w1 = this g1
        show ?thesis
        proof (cases "?code = 0")
          case True
          with Inr False StatOK Cons.prems have
            "collect_files E fs (b\<lparr>Artifacts := Artifacts b @ [?relPath]\<rparr>) ?w2 = (b', w')"
            by (simp add: Let_def)
          from Cons.IH [OF this] w1 show ?thesis by auto
        next
          case nz: False
          with Inr False StatOK Cons.prems have
            "collect_files E fs b (Logger (LogUnableToCopy f ?code) ?w2) = (b', w')"
            by (simp add: Let_def)
          from Cons.IH [OF this] w1 show ?thesis by simp
        qed
      qed
    qed
  qed
qed

lemma collect_patterns_frame:
  "collect_patterns E ps b w = (b', w') \<Longrightarrow>
     (\<exists>as. b' = b\<lparr>Artifacts := as\<rparr>) \<and> phases (trace w') = phases (trace w) \<and> gcount w' = gcount w"
proof (induction ps arbitrary: b w)
  case Nil
  then show ?case
    by (auto intro: exI [of _ "Artifacts b"])
next
  case (Cons p ps)
  show ?case
  proof (cases "doublestar_Glob E (GetWorkspaceDir E b @ p) w")
    case (Inl err)
    with Cons.prems have "collect_patterns E ps b (Logger (LogErr err) w) = (b', w')"
      by simp
    from Cons.IH [OF this] show ?thesis by simp
  next
    case (Inr files)
    obtain b1 w1 where cf: "collect_files E files b w = (b1, w1)"
      by force
    with Inr Cons.prems have "collect_patterns E ps b1 w1 = (b', w')"
      by simp
    from Cons.IH [OF this] collect_files_frame [OF cf] show ?thesis
      by auto
  qed
qed

lemma CollectArtifacts_frame:
  "CollectArtifacts E b w = (b', w') \<Longrightarrow>
     (\<exists>as. b' = b\<lparr>Artifacts := as\<rparr>) \<and> phases (trace w') = phases (trace w) \<and> gcount w' = gcount w"
  unfolding CollectArtifacts_def by (rule collect_patterns_frame)

lemma same_tasks_Artifacts [simp]: "same_tasks_except k b (b\<lparr>Artifacts := as\<rparr>)"
  by (simp add: same_tasks_except_def get_task_def)

lemma same_tasks_StartedAt [simp]: "same_tasks_except k b (b\<lparr>StartedAt := t\<rparr>)"
  by (simp add: same_tasks_except_def get_task_def)

lemma same_tasks_Duration [simp]: "same_tasks_except k b (b\<lparr>Duration := t\<rparr>)"
  by (simp add: same_tasks_except_def get_task_def)

lemma same_tasks_timer [simp]: "same_tasks_except k b (b\<lparr>timer := t\<rparr>)"
  by (simp add: same_tasks_except_def get_task_def)

lemma same_tasks_Status [simp]: "same_tasks_except k b (b\<lparr>Status := s\<rparr>)"
  by (simp add: same_tasks_except_def get_task_def)

subsection \<open>Status transitions\<close>

lemma Cleanup_frame [simp]:
  "skeleton (trace (Cleanup b w)) = skeleton (trace w)"
  "gcount (Cleanup b w) = gcount w"
  by (simp_all add: Cleanup_def)

lemma arm_timer_frame:
  "arm_timer E b w = (b', w') \<Longrightarrow>
     (\<exists>t. b' = b\<lparr>timer := t\<rparr>) \<and> skeleton (trace w') = skeleton (trace w) \<and> gcount w' = gcount w"
  by (auto simp: arm_timer_def split: if_splits sum.splits intro: exI [of _ "timer b"])

lemma status_actions_frame:
  assumes "status_actions E s b w = Some (b', w')"
  shows "same_tasks_except s b b' \<and> Status b' = Status b
     \<and> phases (trace w') = phases (trace w) @ map Run (task_IDs b (hooks s b))
     \<and> gcount w' = gcount w
     \<and> (s \<noteq> StatusFinished \<longrightarrow> Artifacts b' = Artifacts b \<and> copies (trace w') = copies (trace w))"
proof -
  consider (pending) "s = StatusPending" | (running) "s = StatusRunning"
    | (aborted) "s = StatusAborted" | (failed) "s = StatusFailed" | (finished) "s = StatusFinished"
    | (other) "s \<notin> {StatusPending, StatusRunning, StatusAborted, StatusFailed, StatusFinished}"
    by blast
  then show ?thesis
  proof cases
    case pending
    with assms show ?thesis
      by (auto simp: status_actions_def hooks_def)
  next
    case other
    with assms show ?thesis
      by (auto simp: status_actions_def hooks_def)
  next
    case running
    obtain b1 w1 where at: "arm_timer E (b\<lparr>StartedAt := time_Now E w\<rparr>) w = (b1, w1)"
      by force
    with running assms have ro: "runOnStatusTasks E s b1 w1 = Some (b', w')"
      by (simp add: status_actions_def)
    from arm_timer_frame [OF at] obtain t where
      b1: "b1 = b\<lparr>StartedAt := time_Now E w\<rparr>\<lparr>timer := t\<rparr>"
      and w1: "skeleton (trace w1) = skeleton (trace w)" "gcount w1 = gcount w"
      by blast
    have s1: "same_tasks_except s b b1"
      by (subst b1) (simp add: same_tasks_except_def get_task_def)
    have f1: "Status b1 = Status b" "Artifacts b1 = Artifacts b"
      by (subst b1, simp)+
    from w1 have o1: "phases (trace w1) = phases (trace w)" "copies (trace w1) = copies (trace w)"
      by (metis phases_skeleton, metis copies_skeleton)
    from runOnStatusTasks_frame [OF ro] running have
      r: "same_tasks_except s b1 b'"
      "phases (trace w') = phases (trace w1) @ map Run (task_IDs b1 (positions s b1))"
      "copies (trace w') = copies (trace w1)" "gcount w' = gcount w1"
      "Status b' = Status b1" "Artifacts b' = Artifacts b1"
      by simp_all
    have "same_tasks_except s b b'"
      using s1 r(1) by (rule same_tasks_trans)
    moreover have "hooks s b = positions s b"
      using running by (simp add: hooks_def)
    ultimately show ?thesis
      using r f1 o1 w1 by (simp add: same_tasks_task_IDs [OF s1] same_tasks_positions [OF s1])
  next
    case aborted
    with assms obtain b1 w1 where ro: "runOnStatusTasks E s b w = Some (b1, w1)"
      and fin: "finish_build E b1 w1 = (b', w')"
      by (auto simp: status_actions_def split: option.splits)
    from fin have b': "b' = b1\<lparr>Duration := time_Since E (StartedAt b1) w1\<rparr>" and w': "w' = Cleanup b1 w1"
      by (simp_all add: finish_build_def)
    have o: "phases (trace w') = phases (trace w1)" "copies (trace w') = copies (trace w1)"
      unfolding w' by (metis phases_skeleton Cleanup_frame(1), metis copies_skeleton Cleanup_frame(1))
    have s2: "same_tasks_except s b1 b'"
      by (subst b') simp
    from runOnStatusTasks_frame [OF ro] aborted o s2 b' w' show ?thesis
      by (auto simp: hooks_def intro: same_tasks_trans)
  next
    case failed
    with assms obtain b1 w1 where ro: "runOnStatusTasks E s b w = Some (b1, w1)"
      and fin: "finish_build E b1 w1 = (b', w')"
      by (auto simp: status_actions_def split: option.splits)
    from fin have b': "b' = b1\<lparr>Duration := time_Since E (StartedAt b1) w1\<rparr>" and w': "w' = Cleanup b1 w1"
      by (simp_all add: finish_build_def)
    have o: "phases (trace w') = phases (trace w1)" "copies (trace w') = copies (trace w1)"
      unfolding w' by (metis phases_skeleton Cleanup_frame(1), metis copies_skeleton Cleanup_frame(1))
    have s2: "same_tasks_except s b1 b'"
      by (subst b') simp
    from runOnStatusTasks_frame [OF ro] failed o s2 b' w' show ?thesis
      by (auto simp: hooks_def intro: same_tasks_trans)
  next
    case finished
    obtain b0 w0 where ca: "CollectArtifacts E b w = (b0, w0)"
      by force
    with finished assms obtain b1 w1 where ro: "runOnStatusTasks E s b0 w0 = Some (b1, w1)"
      and fin: "finish_build E b1 w1 = (b', w')"
      by (auto simp: status_actions_def split: option.splits)
    from fin have b': "b' = b1\<lparr>Duration := time_Since E (StartedAt b1) w1\<rparr>" and w': "w' = Cleanup b1 w1"
      by (simp_all add: finish_build_def)
    have o: "phases (trace w') = phases (trace w1)"
      unfolding w' by (metis phases_skeleton Cleanup_frame(1))
    from CollectArtifacts_frame [OF ca] obtain as where
      b0: "b0 = b\<lparr>Artifacts := as\<rparr>" and w0: "phases (trace w0) = phases (trace w)" "gcount w0 = gcount w"
      by blast
    have s0: "same_tasks_except s b b0"
      by (subst b0) simp
    have f0: "Status b0 = Status b"
      by (subst b0) simp
    have s2: "same_tasks_except s b1 b'"
      by (subst b') simp
    from runOnStatusTasks_frame [OF ro] finished have
      "same_tasks_except s b0 b1" "phases (trace w1) = phases (trace w0) @ map Run (task_IDs b0 (positions s b0))"
      "gcount w1 = gcount w0" "Status b1 = Status b0"
      by simp_all
    with s0 f0 s2 o w0 finished b' w' show ?thesis
      by (auto simp: hooks_def same_tasks_task_IDs [OF s0] same_tasks_positions [OF s0]
          intro: same_tasks_trans)
  qed
qed

lemma phases_BroadcastUpdate [simp]:
  "phases (trace (BroadcastUpdate E b w)) = phases (trace w) @ [Update (GenerateBuildUpdateData b)]"
  by (subst (1 2) phases_skeleton [symmetric]) (simp add: update_msg_def)

lemma copies_BroadcastUpdate [simp]:
  "copies (trace (BroadcastUpdate E b w)) = copies (trace w)"
  by (subst (1 2) copies_skeleton [symmetric]) simp

lemma last_update_BroadcastUpdate:
  "last_update (ID b) (trace (BroadcastUpdate E b w)) = Some (GenerateBuildUpdateData b)"
proof -
  have "bud_ID (GenerateBuildUpdateData b) = ID b"
    by (simp add: GenerateBuildUpdateData_def)
  then show ?thesis
    by (auto simp: BroadcastUpdate_def history_Put_def Let_def last_update_append update_msg_def
        split: sum.splits option.splits)
qed

lemma SetBuildStatus_frame:
  assumes "SetBuildStatus E s b w = Some (b', w')"
  shows "same_tasks_except s b b' \<and> Status b' = s
     \<and> phases (trace w') =
         phases (trace w) @ map Run (task_IDs b (hooks s b)) @ [Update (GenerateBuildUpdateData b')]
     \<and> gcount w' = gcount w
     \<and> (s \<noteq> StatusFinished \<longrightarrow> Artifacts b' = Artifacts b \<and> copies (trace w') = copies (trace w))
     \<and> last_update (ID b) (trace w') = Some (GenerateBuildUpdateData b')"
proof -
  let ?b1 = "b\<lparr>Status := s\<rparr>"
  let ?w1 = "Logger (LogStatus s) w"
  from assms obtain w2 where
    sa: "status_actions E s ?b1 ?w1 = Some (b', w2)" and w': "w' = BroadcastUpdate E b' w2"
    by (auto simp: SetBuildStatus_def Let_def split: if_splits option.splits)
  have s1: "same_tasks_except s b ?b1"
    by simp
  from status_actions_frame [OF sa] have
    r: "same_tasks_except s ?b1 b'" "Status b' = s"
    "phases (trace w2) = phases (trace ?w1) @ map Run (task_IDs ?b1 (hooks s ?b1))"
    "gcount w2 = gcount ?w1"
    "s \<noteq> StatusFinished \<longrightarrow> Artifacts b' = Artifacts ?b1 \<and> copies (trace w2) = copies (trace ?w1)"
    by simp_all
  have s2: "same_tasks_except s b b'"
    using s1 r(1) by (rule same_tasks_trans)
  have "ID b' = ID b"
    using s2 by (rule same_tasks_ID)
  then have "last_update (ID b) (trace w') = Some (GenerateBuildUpdateData b')"
    unfolding w' by (metis last_update_BroadcastUpdate)
  with s2 r show ?thesis
    unfolding w' by (simp add: same_tasks_task_IDs [OF s1] same_tasks_hooks [OF s1])
qed

lemma shows_task_GenerateBuildUpdateData:
  "i < length (job_Tasks (Job b)) \<Longrightarrow>
     shows_task (GenerateBuildUpdateData b) i s \<longleftrightarrow> task_Status (get_task b i) = s"
  by (simp add: shows_task_def GenerateBuildUpdateData_def GetTasksStatus_def get_task_def)

lemma rounds_same_IDs:
  "(\<And>j. task_ID (get_task b3 j) = task_ID (get_task b j)) \<Longrightarrow>
     rounds b3 fin ds rest ps = rounds b fin ds rest ps"
  by (induction b3 fin ds rest ps rule: rounds.induct) simp_all

lemma bud_Tasks_same:
  "i < length (job_Tasks (Job b)) \<Longrightarrow> length (job_Tasks (Job b')) = length (job_Tasks (Job b)) \<Longrightarrow>
     get_task b' i = get_task b i \<Longrightarrow>
     bud_Tasks (GenerateBuildUpdateData b) ! i = bud_Tasks (GenerateBuildUpdateData b') ! i"
  by (simp add: GenerateBuildUpdateData_def GetTasksStatus_def get_task_def)

text \<open>One round of the loop of \<open>Start\<close> on a main task.\<close>

lemma main_step:
  assumes run: "runTask E (set_task i t1 b) (get_task (set_task i t1 b) i) w1 = Some (st, b2, w2)"
    and t1: "task_ID t1 = task_ID (get_task b i)" "task_Kind t1 = task_Kind (get_task b i)"
  defines "b3 \<equiv> set_task i ((get_task b2 i)\<lparr>task_Status := st,
             task_duration := time_Since E (task_startedAt (get_task b2 i)) w2\<rparr>) b2"
  shows "same_tasks_except (task_Kind (get_task b i)) b b3"
    and "\<And>j. j \<noteq> i \<Longrightarrow> get_task b3 j = get_task b j"
    and "i < length (job_Tasks (Job b)) \<Longrightarrow> task_Status (get_task b3 i) = st"
    and "phases (trace w2) = phases (trace w1) @ [Run (task_ID (get_task b i))]"
    and "copies (trace w2) = copies (trace w1)"
    and "Artifacts b3 = Artifacts b" and "Status b3 = Status b"
    and "pendingTasksWG b3 = pendingTasksWG b"
proof -
  let ?k = "task_Kind (get_task b i)"
  let ?b1 = "set_task i t1 b"
  have s1: "same_tasks_except ?k b ?b1"
    using t1 by (intro same_tasks_set_task) simp_all
  from runTask_frame [OF run] obtain vs where
    b2: "b2 = ?b1\<lparr>aborted := aborted ?b1 \<or> True \<in> set vs\<rparr>"
    by blast
  have s2: "same_tasks_except ?k ?b1 b2"
    by (subst b2) simp
  have s12: "same_tasks_except ?k b b2"
    using s1 s2 by (rule same_tasks_trans)
  have "same_tasks_except ?k b2 b3"
    unfolding b3_def using s12 by (intro same_tasks_set_task) (simp_all add: same_tasks_Kind)
  with s12 show "same_tasks_except ?k b b3"
    by (rule same_tasks_trans)
  have g2: "get_task b2 j = get_task ?b1 j" for j
    by (subst b2) (simp add: get_task_def)
  show "get_task b3 j = get_task b j" if "j \<noteq> i" for j
    using that by (simp add: b3_def get_set_task g2)
  have l2: "length (job_Tasks (Job b2)) = length (job_Tasks (Job b))"
    using s12 by (rule same_tasks_length)
  show "task_Status (get_task b3 i) = st" if "i < length (job_Tasks (Job b))"
    using that l2 by (simp add: b3_def get_set_task)
  show "phases (trace w2) = phases (trace w1) @ [Run (task_ID (get_task b i))]"
    using runTask_phases [OF run] s1 by (simp add: same_tasks_task_ID)
  show "copies (trace w2) = copies (trace w1)"
    using runTask_copies [OF run] .
  show "Artifacts b3 = Artifacts b" "Status b3 = Status b" "pendingTasksWG b3 = pendingTasksWG b"
    unfolding b3_def by (simp, subst b2, simp)+
qed

lemma loop_end:
  assumes sbs: "SetBuildStatus E s b3 w2 = Some (b', w')"
    and s: "s = StatusFailed \<or> s = StatusAborted"
    and main: "task_Kind (get_task b i) = KindMain"
    and i: "i < length (job_Tasks (Job b))" "i \<notin> set is"
    and step: "same_tasks_except KindMain b b3" "\<And>j. j \<noteq> i \<Longrightarrow> get_task b3 j = get_task b j"
      "task_Status (get_task b3 i) = s"
      "phases (trace w2) = phases (trace w) @ [Update d1, Run (task_ID (get_task b i))]"
      "shows_task d1 i StatusRunning"
      "copies (trace w2) = copies (trace w)" "Artifacts b3 = Artifacts b"
  shows "loop_outcome (i # is) b w b' w' [] (i # filter (\<lambda>i. task_Kind (get_task b i) = KindMain) is)"
proof -
  from s have ne: "s \<noteq> StatusFinished" "s \<noteq> KindMain"
    by auto
  from SetBuildStatus_frame [OF sbs] ne have
    f: "same_tasks_except s b3 b'" "Status b' = s"
    "phases (trace w') = phases (trace w2) @ map Run (task_IDs b3 (hooks s b3))
       @ [Update (GenerateBuildUpdateData b')]"
    "Artifacts b' = Artifacts b3" "copies (trace w') = copies (trace w2)"
    "last_update (ID b3) (trace w') = Some (GenerateBuildUpdateData b')"
    by simp_all
  have k3: "task_Kind (get_task b3 j) = task_Kind (get_task b j)" for j
    using step(1) by (rule same_tasks_Kind)
  have keep: "get_task b' j = get_task b3 j" if "task_Kind (get_task b j) = KindMain" for j
    using same_tasks_other [OF f(1), of j] that ne(2) by (auto simp: k3)
  have kinds: "task_ID (get_task b' j) = task_ID (get_task b j)
      \<and> task_Kind (get_task b' j) = task_Kind (get_task b j)" for j
    using same_tasks_task_ID [OF f(1)] same_tasks_Kind [OF f(1)]
      same_tasks_task_ID [OF step(1)] same_tasks_Kind [OF step(1)] by simp
  have "ID b' = ID b"
    using same_tasks_ID [OF f(1)] same_tasks_ID [OF step(1)] by simp
  moreover have "length (job_Tasks (Job b')) = length (job_Tasks (Job b))"
    using same_tasks_length [OF f(1)] same_tasks_length [OF step(1)] by simp
  moreover have "\<exists>ps. phases (trace w') = phases (trace w) @ ps
      \<and> rounds b (GenerateBuildUpdateData b') [] (i # filter (\<lambda>i. task_Kind (get_task b i) = KindMain) is) ps =
          Some (map Run (task_IDs b (hooks (Status b') b)) @ [Update (GenerateBuildUpdateData b')])"
    using f(2,3) step(4,5)
    by (intro exI [of _ "[Update d1, Run (task_ID (get_task b i))]
          @ map Run (task_IDs b (hooks s b)) @ [Update (GenerateBuildUpdateData b')]"])
      (simp add: same_tasks_task_IDs [OF step(1)] same_tasks_hooks [OF step(1)])
  moreover have "task_Status (get_task b' i) = Status b'"
    using keep [OF main] step(3) f(2) by simp
  moreover have "get_task b' j = get_task b j"
    if "j \<in> set (filter (\<lambda>i. task_Kind (get_task b i) = KindMain) is)" for j
    using that i(2) keep [of j] step(2) [of j] by auto
  moreover have "get_task b' j = get_task b j"
    if "j \<notin> set (i # is)" "task_Kind (get_task b j) = KindMain" for j
    using that keep [of j] step(2) [of j] by auto
  moreover have "last_update (ID b) (trace w') = Some (GenerateBuildUpdateData b')"
    using f(6) same_tasks_ID [OF step(1)] by simp
  moreover have "Artifacts b' = Artifacts b" "copies (trace w') = copies (trace w)"
    using f(4,5) step(6,7) by simp_all
  ultimately show ?thesis
    using main s f(2) kinds unfolding loop_outcome_def by auto
qed

lemma loop_continue:
  assumes lo: "loop_outcome is b3 w3 b' w' ds rest"
    and main: "task_Kind (get_task b i) = KindMain"
    and i: "i \<notin> set is"
    and step: "same_tasks_except KindMain b b3" "\<And>j. j \<noteq> i \<Longrightarrow> get_task b3 j = get_task b j"
      "task_Status (get_task b3 i) = StatusFinished"
      "phases (trace w3) =
         phases (trace w) @ [Update d1, Run (task_ID (get_task b i)),
           Update (GenerateBuildUpdateData b3)]"
      "shows_task d1 i StatusRunning" "i < length (job_Tasks (Job b3))"
      "copies (trace w3) = copies (trace w)" "Artifacts b3 = Artifacts b"
  shows "loop_outcome (i # is) b w b' w' (i # ds) rest"
proof -
  let ?main = "\<lambda>b i. task_Kind (get_task b i) = KindMain"
  have k3: "task_Kind (get_task b3 j) = task_Kind (get_task b j)" for j
    using step(1) by (rule same_tasks_Kind)
  have id3: "task_ID (get_task b3 j) = task_ID (get_task b j)" for j
    using step(1) by (rule same_tasks_task_ID)
  from lo have
    split: "filter (?main b3) is = ds @ rest"
    and st: "\<exists>ps. phases (trace w') = phases (trace w3) @ ps
            \<and> rounds b3 (GenerateBuildUpdateData b') ds rest ps =
                Some (map Run (task_IDs b3 (hooks (Status b') b3))
                        @ [Update (GenerateBuildUpdateData b')])"
    and fin: "\<forall>i\<in>set ds. task_Status (get_task b' i) = StatusFinished"
    and all: "rest = [] \<longrightarrow> Status b' = StatusFinished"
    and stop: "\<forall>i r. rest = i # r \<longrightarrow>
           (Status b' = StatusFailed \<or> Status b' = StatusAborted)
           \<and> task_Status (get_task b' i) = Status b'
           \<and> (\<forall>j\<in>set r. get_task b' j = get_task b3 j)"
    and shape: "ID b' = ID b3" "length (job_Tasks (Job b')) = length (job_Tasks (Job b3))"
      "\<forall>j. task_ID (get_task b' j) = task_ID (get_task b3 j)
            \<and> task_Kind (get_task b' j) = task_Kind (get_task b3 j)"
    and out: "\<forall>j. j \<notin> set is \<and> ?main b3 j \<longrightarrow> get_task b' j = get_task b3 j"
    and lu: "last_update (ID b3) (trace w') = Some (GenerateBuildUpdateData b')"
    and art: "Status b' \<noteq> StatusFinished \<longrightarrow>
           Artifacts b' = Artifacts b3 \<and> copies (trace w') = copies (trace w3)"
    unfolding loop_outcome_def by blast+
  have split': "filter (?main b) is = ds @ rest"
    using split by (simp add: k3)
  have c1: "filter (?main b) (i # is) = (i # ds) @ rest"
    using main split' by simp
  from st obtain ps where
    ps: "phases (trace w') = phases (trace w3) @ ps"
    "rounds b3 (GenerateBuildUpdateData b') ds rest ps =
       Some (map Run (task_IDs b3 (hooks (Status b') b3)) @ [Update (GenerateBuildUpdateData b')])"
    by blast
  have keep: "get_task b' i = get_task b3 i"
    using out i main by (simp add: k3)
  have sh2: "shows_task (GenerateBuildUpdateData b3) i StatusFinished"
    using step(3,6) by (simp only: shows_task_GenerateBuildUpdateData)
  have same: "bud_Tasks (GenerateBuildUpdateData b3) ! i = bud_Tasks (GenerateBuildUpdateData b') ! i"
    using step(6) shape(2) keep by (rule bud_Tasks_same)
  have "rounds b (GenerateBuildUpdateData b') ds rest ps =
       Some (map Run (task_IDs b (hooks (Status b') b)) @ [Update (GenerateBuildUpdateData b')])"
    using ps(2) rounds_same_IDs [of b3 b "GenerateBuildUpdateData b'" ds rest ps, OF id3]
    by (simp add: same_tasks_task_IDs [OF step(1)] same_tasks_hooks [OF step(1)])
  then have c2: "\<exists>ps. phases (trace w') = phases (trace w) @ ps
      \<and> rounds b (GenerateBuildUpdateData b') (i # ds) rest ps =
          Some (map Run (task_IDs b (hooks (Status b') b)) @ [Update (GenerateBuildUpdateData b')])"
    using ps(1) step(4,5) sh2 same
    by (intro exI [of _ "Update d1 # Run (task_ID (get_task b i))
          # Update (GenerateBuildUpdateData b3) # ps"]) simp
  from keep step(3) fin have c3: "\<forall>j\<in>set (i # ds). task_Status (get_task b' j) = StatusFinished"
    by simp
  have in_is: "j \<in> set is" if "j \<in> set rest" for j
  proof -
    from that have "j \<in> set (filter (?main b) is)"
      by (simp add: split')
    then show ?thesis by simp
  qed
  have c5: "\<forall>i' r. rest = i' # r \<longrightarrow>
           (Status b' = StatusFailed \<or> Status b' = StatusAborted)
           \<and> task_Status (get_task b' i') = Status b'
           \<and> (\<forall>j\<in>set r. get_task b' j = get_task b j)"
  proof (intro allI impI)
    fix i' r
    assume r: "rest = i' # r"
    have "get_task b' j = get_task b j" if "j \<in> set r" for j
    proof -
      from that r have "j \<in> set is"
        by (intro in_is) simp
      with i have "j \<noteq> i" by auto
      with stop r that step(2) [of j] show ?thesis by simp
    qed
    with stop r show "(Status b' = StatusFailed \<or> Status b' = StatusAborted)
           \<and> task_Status (get_task b' i') = Status b'
           \<and> (\<forall>j\<in>set r. get_task b' j = get_task b j)"
      by simp
  qed
  have c6: "ID b' = ID b" "length (job_Tasks (Job b')) = length (job_Tasks (Job b))"
    using shape(1,2) same_tasks_ID [OF step(1)] same_tasks_length [OF step(1)] by simp_all
  have c7: "\<forall>j. task_ID (get_task b' j) = task_ID (get_task b j)
            \<and> task_Kind (get_task b' j) = task_Kind (get_task b j)"
    using shape(3) id3 k3 by simp
  have c8: "\<forall>j. j \<notin> set (i # is) \<and> ?main b j \<longrightarrow> get_task b' j = get_task b j"
    using out step(2) by (simp add: k3)
  have c9: "last_update (ID b) (trace w') = Some (GenerateBuildUpdateData b')"
    using lu same_tasks_ID [OF step(1)] by simp
  have c10: "Status b' \<noteq> StatusFinished \<longrightarrow>
           Artifacts b' = Artifacts b \<and> copies (trace w') = copies (trace w)"
    using art step(7,8) by simp
  show ?thesis
    unfolding loop_outcome_def using c1 c2 c3 all c5 c6 c7 c8 c9 c10 by blast
qed

lemma loop_skip:
  assumes lo: "loop_outcome is b w b' w' ds rest"
    and other: "task_Kind (get_task b i) \<noteq> KindMain"
  shows "loop_outcome (i # is) b w b' w' ds rest"
  using assms unfolding loop_outcome_def by auto

lemma loop_finished:
  assumes sbs: "SetBuildStatus E StatusFinished b w = Some (b', w')"
  shows "loop_outcome [] b w b' w' [] []"
proof -
  from SetBuildStatus_frame [OF sbs] have
    f: "same_tasks_except StatusFinished b b'" "Status b' = StatusFinished"
    "phases (trace w') = phases (trace w) @ map Run (task_IDs b (hooks StatusFinished b))
       @ [Update (GenerateBuildUpdateData b')]"
    "last_update (ID b) (trace w') = Some (GenerateBuildUpdateData b')"
    by simp_all
  have "get_task b' j = get_task b j" if "task_Kind (get_task b j) = KindMain" for j
    using same_tasks_other [OF f(1), of j] that by simp
  with f same_tasks_ID [OF f(1)] same_tasks_length [OF f(1)] same_tasks_task_ID [OF f(1)]
    same_tasks_Kind [OF f(1)]
  show ?thesis
    unfolding loop_outcome_def by simp
qed

lemma main_tasks_outcome:
  assumes "main_tasks E is b w = Some (b', w')" and "distinct is"
    and "\<forall>i\<in>set is. i < length (job_Tasks (Job b))"
  shows "\<exists>ds rest. loop_outcome is b w b' w' ds rest"
  using assms
proof (induction "is" arbitrary: b w)
  case Nil
  then have "SetBuildStatus E StatusFinished b w = Some (b', w')"
    by simp
  from loop_finished [OF this] show ?case
    by blast
next
  case (Cons i "is")
  from Cons.prems have d: "distinct is" "i \<notin> set is"
    and r: "\<forall>j\<in>set is. j < length (job_Tasks (Job b))" "i < length (job_Tasks (Job b))"
    by simp_all
  show ?case
  proof (cases "task_Kind (get_task b i) = KindMain")
    case False
    with Cons.prems have "main_tasks E is b w = Some (b', w')"
      by simp
    from Cons.IH [OF this d(1) r(1)] obtain ds rest where
      "loop_outcome is b w b' w' ds rest"
      by blast
    from loop_skip [OF this False] show ?thesis
      by blast
  next
    case True
    let ?t1 = "(get_task b i)\<lparr>task_Status := StatusRunning, task_startedAt := time_Now E w\<rparr>"
    let ?b1 = "set_task i ?t1 b"
    let ?w1 = "BroadcastUpdate E ?b1 w"
    from True Cons.prems obtain st b2 w2 where
      run: "runTask E ?b1 (get_task ?b1 i) ?w1 = Some (st, b2, w2)"
      by (auto simp: Let_def split: option.splits)
    let ?b3 = "set_task i ((get_task b2 i)\<lparr>task_Status := st,
             task_duration := time_Since E (task_startedAt (get_task b2 i)) w2\<rparr>) b2"
    have t1: "task_ID ?t1 = task_ID (get_task b i)" "task_Kind ?t1 = task_Kind (get_task b i)"
      by simp_all
    note step = main_step [OF run t1]
    have s3: "same_tasks_except KindMain b ?b3"
      using step(1) True by simp
    have st3: "task_Status (get_task ?b3 i) = st"
      using step(3) r(2) by simp
    have sw2: "phases (trace w2) =
        phases (trace w) @ [Update (GenerateBuildUpdateData ?b1), Run (task_ID (get_task b i))]"
      and cw2: "copies (trace w2) = copies (trace w)"
      using step(4,5) by simp_all
    have sh1: "shows_task (GenerateBuildUpdateData ?b1) i StatusRunning"
      using r(2) by (simp add: shows_task_GenerateBuildUpdateData get_set_task)
    from runTask_status [OF run] consider
      (stop) "st = StatusFailed \<or> st = StatusAborted" | (go) "st = StatusFinished"
      by blast
    then show ?thesis
    proof cases
      case stop
      with True run Cons.prems(1) have "SetBuildStatus E st ?b3 w2 = Some (b', w')"
        by (auto simp: Let_def)
      from loop_end [OF this stop True r(2) d(2) s3 step(2) st3 sw2 sh1 cw2 step(6)] show ?thesis
        by blast
    next
      case go
      let ?w3 = "BroadcastUpdate E ?b3 w2"
      from go True run Cons.prems(1) have rec: "main_tasks E is ?b3 ?w3 = Some (b', w')"
        by (simp add: Let_def)
      have l3: "length (job_Tasks (Job ?b3)) = length (job_Tasks (Job b))"
        using same_tasks_length [OF s3] .
      then have "\<forall>j\<in>set is. j < length (job_Tasks (Job ?b3))"
        using r(1) by simp
      from Cons.IH [OF rec d(1) this] obtain ds rest where
        lo: "loop_outcome is ?b3 ?w3 b' w' ds rest"
        by blast
      have sw3: "phases (trace ?w3) =
          phases (trace w) @ [Update (GenerateBuildUpdateData ?b1), Run (task_ID (get_task b i)),
            Update (GenerateBuildUpdateData ?b3)]"
        and cw3: "copies (trace ?w3) = copies (trace w)"
        using sw2 cw2 by simp_all
      from st3 go have f3: "task_Status (get_task ?b3 i) = StatusFinished"
        by simp
      have i3: "i < length (job_Tasks (Job ?b3))"
        using r(2) l3 by simp
      from loop_continue [OF lo True d(2) s3 step(2) f3 sw3 sh1 i3 cw3 step(6)] show ?thesis
        by blast
    qed
  qed
qed

subsection \<open>The main tasks\<close>

lemma positions_distinct: "distinct [0..<n]" by simp


lemma Start_artifacts:
  assumes "Start E b w = Some (b', w')" and "Status b' \<noteq> StatusFinished"
  shows "Artifacts b' = Artifacts b \<and> copies (trace w') = copies (trace w)"
proof -
  from assms obtain b1 w1 where
    sbs: "SetBuildStatus E StatusRunning b w = Some (b1, w1)"
    and loop: "main_tasks E [0..<length (job_Tasks (Job b1))] b1 w1 = Some (b', w')"
    by (auto simp: Start_def split: option.splits)
  from SetBuildStatus_frame [OF sbs] have
    a1: "Artifacts b1 = Artifacts b" "copies (trace w1) = copies (trace w)"
    by simp_all
  have "\<forall>i\<in>set [0..<length (job_Tasks (Job b1))]. i < length (job_Tasks (Job b1))"
    by simp
  from main_tasks_outcome [OF loop positions_distinct this] obtain ds rest where
    "loop_outcome [0..<length (job_Tasks (Job b1))] b1 w1 b' w' ds rest"
    by blast
  then have "Status b' \<noteq> StatusFinished \<longrightarrow>
           Artifacts b' = Artifacts b1 \<and> copies (trace w') = copies (trace w1)"
    unfolding loop_outcome_def by blast
  with assms(2) a1 show ?thesis
    by simp
qed

subsection \<open>Artifacts only for finished builds\<close>

text \<open>
  C6. A transition to any status but finished, so in particular to failed or to aborted,
  leaves the list of artifacts of the build as it was and copies no file: the copies
  recorded in the trace are those from before the transition.
\<close>

theorem artifacts_only_when_finished:
  assumes "SetBuildStatus E status b w = Some (b', w')" and "status \<noteq> StatusFinished"
  shows "Artifacts b' = Artifacts b \<and> copies (trace w') = copies (trace w)"
  using SetBuildStatus_frame [OF assms(1)] assms(2) by simp


lemma env_art_fields:
  "Config env_art = config0"
  "os_Create env_art = (\<lambda>p w. None)"
  "os_MkdirAll env_art = (\<lambda>p w. None)"
  "cp_exit env_art = (\<lambda>s d w. 0)"
  "time_Now env_art = (\<lambda>w. 0)"
  "json_Marshal env_art = marshal0"
  "DB_commit env_art = (\<lambda>w. None)"
  "doublestar_Glob env_art = (\<lambda>p w.
             if p = ''/w/workspace/1/out/**''
             then Inr [''/w/workspace/1/out'', ''/w/workspace/1/out/a.txt'',
                       ''/w/workspace/1/out/sub'', ''/w/workspace/1/out/sub/b.txt'']
             else Inr [])"
  "os_Stat env_art = (\<lambda>p w. StatOK (p = ''/w/workspace/1/out'' \<or> p = ''/w/workspace/1/out/sub''))"
  by (simp_all add: env_art_def env0_def)


lemmas build_defs = Start_def SetBuildStatus_def status_actions_def arm_timer_def
  runOnStatusTasks_def finish_build_def Cleanup_def run_defs get_task_def set_task_def
  time_Since_def time_Sub_def maxDuration_def minDuration_def


theorem artifacts_only_when_finished_witness:
  "\<exists>b' w'. SetBuildStatus env_art StatusFailed (build0 1 job_art) world0 = Some (b', w')
     \<and> Artifacts b' = [] \<and> copies (trace w') = []"
proof -
  have "\<exists>b' w'. SetBuildStatus env_art StatusFailed (build0 1 job_art) world0 = Some (b', w')"
    by (simp add: build_defs env_art_fields build0_def job_art_def job0_def)
  then obtain b' w' where
    run: "SetBuildStatus env_art StatusFailed (build0 1 job_art) world0 = Some (b', w')"
    by blast
  have ne: "StatusFailed \<noteq> StatusFinished"
    by simp
  from artifacts_only_when_finished [OF run ne] run show ?thesis
    by (simp add: build0_def world0_def)
qed

text \<open>The same build and workspace, on the transition to finished: the two files are
  copied under the artifacts directory and recorded, the directories are skipped.\<close>

lemma artifacts_collected_when_finished:
  "\<exists>b' w'. SetBuildStatus env_art StatusFinished (build0 1 job_art) world0 = Some (b', w')
     \<and> Artifacts b' = [''out/a.txt'', ''out/sub/b.txt'']
     \<and> copies (trace w') =
         [(''/w/workspace/1/out/a.txt'', ''/w/wakespace/1/artifacts/out/a.txt''),
          (''/w/workspace/1/out/sub/b.txt'', ''/w/wakespace/1/artifacts/out/sub/b.txt'')]"
  by (simp add: build_defs env_art_fields build0_def job_art_def job0_def world0_def
      CollectArtifacts_def MkdirAll_def GetWorkspaceDir_def GetArtifactsDir_def GetWakespaceDir_def
      config0_def Itoa_1 TrimPrefix_def filepath_Split_def)

subsection \<open>The configuration of an executed build\<close>

text \<open>
  C9. With \<open>new\<close> the file \<open>wakespace/<buildID>/build_plan<ext>\<close> and \<open>old\<close> the file
  \<open>wakespace/<buildID>/build<ext>\<close> under the work directory: when \<open>new\<close> exists,
  \<open>getBuildConfig\<close> returns what reading and unmarshalling \<open>new\<close> gives; when \<open>new\<close> does not
  exist and \<open>old\<close> is not reported missing, it returns what \<open>CreateJobFromFile\<close> gives on
  \<open>old\<close>; when neither exists it returns the error and no job.
\<close>

theorem getBuildConfig_precedence:
  "let new = WorkDir (Config E) @ ''wakespace/'' @ Itoa buildID @ ''/build_plan'' @ jobsExt (Config E);
       old = WorkDir (Config E) @ ''wakespace/'' @ Itoa buildID @ ''/build'' @ jobsExt (Config E)
   in (\<forall>isDir. os_Stat E new w = StatOK isDir \<longrightarrow>
         getBuildConfig E buildID w =
           (case os_ReadFile E new w of Inl err \<Rightarrow> Inl err | Inr data \<Rightarrow> yaml_Unmarshal E data))
    \<and> (\<forall>err. os_Stat E new w = StatNotExist err \<and> (\<forall>err'. os_Stat E old w \<noteq> StatNotExist err') \<longrightarrow>
         getBuildConfig E buildID w = CreateJobFromFile E old w)
    \<and> (\<forall>err err'. os_Stat E new w = StatNotExist err \<and> os_Stat E old w = StatNotExist err' \<longrightarrow>
         getBuildConfig E buildID w = Inl err')"
  by (auto simp: getBuildConfig_def Let_def split: stat_result.splits)

lemma Itoa_7: "Itoa 7 = ''7''" by code_simp

theorem getBuildConfig_precedence_witness:
  "getBuildConfig env0 7 world0
     = Inr (job0\<lparr>job_Name := ''content of /w/wakespace/7/build_plan.yaml''\<rparr>)
   \<and> getBuildConfig env_old 7 world0 = Inr (job0\<lparr>job_Name := ''/w/wakespace/7/build.yaml''\<rparr>)
   \<and> getBuildConfig env_none 7 world0 = Inl (Error ''no such file or directory'')"
proof -
  have paths:
    "WorkDir config0 @ ''wakespace/'' @ Itoa 7 @ ''/build_plan'' @ jobsExt config0
       = ''/w/wakespace/7/build_plan.yaml''"
    "WorkDir config0 @ ''wakespace/'' @ Itoa 7 @ ''/build'' @ jobsExt config0
       = ''/w/wakespace/7/build.yaml''"
    by (simp_all add: config0_def Itoa_7)
  have old: "Config env_old = config0"
    "os_Stat env_old = (\<lambda>p w. if p = ''/w/wakespace/7/build_plan.yaml''
                             then StatNotExist (Error ''no such file or directory'')
                             else StatOK False)"
    "CreateJobFromFile env_old = (\<lambda>p w. Inr (job0\<lparr>job_Name := p\<rparr>))"
    by (simp_all add: env_old_def env0_def)
  have none: "Config env_none = config0"
    "os_Stat env_none = (\<lambda>p w. StatNotExist (Error ''no such file or directory''))"
    by (simp_all add: env_none_def env0_def)
  have env: "Config env0 = config0"
    by (simp add: env0_fields)
  note new = getBuildConfig_precedence [of env0 7 world0, unfolded Let_def env paths]
  note fallback = getBuildConfig_precedence [of env_old 7 world0, unfolded Let_def old(1) paths]
  note neither = getBuildConfig_precedence [of env_none 7 world0, unfolded Let_def none(1) paths]
  have "getBuildConfig env0 7 world0
     = Inr (job0\<lparr>job_Name := ''content of /w/wakespace/7/build_plan.yaml''\<rparr>)"
    using new by (auto simp: env0_fields)
  moreover have "getBuildConfig env_old 7 world0 = Inr (job0\<lparr>job_Name := ''/w/wakespace/7/build.yaml''\<rparr>)"
    using fallback by (auto simp: old)
  moreover have "getBuildConfig env_none 7 world0 = Inl (Error ''no such file or directory'')"
    using neither by (auto simp: none)
  ultimately show ?thesis
    by simp
qed

subsection \<open>Build IDs\<close>

lemma of_char_digit_char: "d < 10 \<Longrightarrow> (of_char (digit_char d) :: nat) = 48 + d"
proof -
  assume "d < 10"
  then have "d \<in> {0, 1, 2, 3, 4, 5, 6, 7, 8, 9}"
    by auto
  then show ?thesis
    by (auto simp: digit_char_def)
qed

lemma read_digits_append:
  "read_digits acc (xs @ ys) =
     (case read_digits acc xs of None \<Rightarrow> None | Some a \<Rightarrow> read_digits a ys)"
  by (induction xs arbitrary: acc) auto

lemma read_digits_digit: "d < 10 \<Longrightarrow> read_digits acc [digit_char d] = Some (acc * 10 + d)"
  by (simp add: of_char_digit_char)

lemma read_digits_Itoa_nat: "read_digits 0 (Itoa_nat n) = Some n"
proof (induction n rule: Itoa_nat.induct)
  case (1 n)
  show ?case
  proof (cases "n < 10")
    case True
    then show ?thesis
      by (subst Itoa_nat.simps) (simp add: of_char_digit_char)
  next
    case False
    with "1" have "read_digits 0 (Itoa_nat (n div 10)) = Some (n div 10)"
      by simp
    with False show ?thesis
      by (subst Itoa_nat.simps) (simp add: read_digits_append of_char_digit_char)
  qed
qed

lemma Itoa_nat_not_Nil: "Itoa_nat n \<noteq> []"
  by (subst Itoa_nat.simps) simp

lemma read_int_Itoa: "0 \<le> n \<Longrightarrow> read_int (Itoa n) = Inr n"
proof -
  assume n: "0 \<le> n"
  obtain c cs where cs: "Itoa_nat (nat n) = c # cs"
    using Itoa_nat_not_Nil [of "nat n"] by (cases "Itoa_nat (nat n)") auto
  have "read_digits 0 (c # cs) = Some (nat n)"
    using read_digits_Itoa_nat [of "nat n"] by (simp only: cs)
  then have "read_int (c # cs) = Inr (int (nat n))"
    by (simp only: read_int_def list.case option.case)
  with n cs show ?thesis
    by (simp add: Itoa_def)
qed

lemma int64_id: "0 \<le> n \<Longrightarrow> n < 2 ^ 63 \<Longrightarrow> int64 n = n"
  by (simp add: int64_def)

lemma allocate_ID_next:
  assumes "last_ID E w = Inr n" and "0 \<le> n" and "n < 2 ^ 63 - 1"
  shows "(\<exists>err. allocate_ID E w = Inl err \<and> DB_commit E w = Some err)
     \<or> allocate_ID E w = Inr (n + 1, w\<lparr>gcount := Some (Itoa (n + 1))\<rparr>)"
proof (cases "gcount w")
  case None
  with assms(1) have "n = 0"
    by (simp add: last_ID_def)
  with None show ?thesis
    by (auto simp: allocate_ID_def split: option.splits)
next
  case (Some count)
  with assms(1) have "ByteToInt E count = Inr n"
    by (simp add: last_ID_def)
  moreover have "int64 (n + 1) = n + 1"
    using assms(2,3) by (intro int64_id) simp_all
  ultimately show ?thesis
    using Some by (auto simp: allocate_ID_def split: option.splits)
qed

lemma MkdirAll_gcount: "MkdirAll E d w = Inr w' \<Longrightarrow> gcount w' = gcount w"
  by (auto simp: MkdirAll_def split: option.splits)

lemma CreateBuild_after_allocation:
  assumes "allocate_ID E w = Inr (counti, w1)" and "CreateBuild E job jobPath w = Some (r, w')"
  shows "gcount w' = gcount w1 \<and> (\<forall>b. r = Inr b \<longrightarrow> ID b = counti)"
proof -
  let ?build = "new_build job counti"
  have id: "ID ?build = counti"
    by (simp add: new_build_def)
  show ?thesis
  proof (cases r)
    case (Inl err)
    with assms show ?thesis
      by (auto simp: CreateBuild_def Let_def dest!: MkdirAll_gcount
          split: sum.splits option.splits)
  next
    case (Inr b)
    with assms obtain w4 where
      pending: "SetBuildStatus E StatusPending ?build w4 = Some (b, w')" and "gcount w4 = gcount w1"
      by (auto simp: CreateBuild_def Let_def dest!: MkdirAll_gcount
          split: sum.splits option.splits)
    with SetBuildStatus_frame [OF pending] same_tasks_ID [of StatusPending ?build b] id Inr
    show ?thesis
      by simp
  qed
qed

lemma CreateBuild_allocation_failed:
  assumes "allocate_ID E w = Inl err" and "CreateBuild E job jobPath w = Some (r, w')"
  shows "r = Inl err \<and> w' = w"
  using assms by (simp add: CreateBuild_def)

lemma subseq_sorted_wrt: "subseq xs ys \<Longrightarrow> sorted_wrt P ys \<Longrightarrow> sorted_wrt P xs"
proof (induction ys arbitrary: xs)
  case Nil
  then show ?case by (auto dest: list_emb_Nil2)
next
  case (Cons y ys)
  show ?case
  proof (cases xs)
    case Nil
    then show ?thesis by simp
  next
    case (Cons x xs')
    show ?thesis
    proof (cases "x = y")
      case True
      with Cons Cons.prems have sub: "subseq xs' ys"
        by simp
      then have "set xs' \<subseteq> set ys"
        by (auto dest: list_emb_set)
      with Cons.IH [OF sub] Cons.prems(2) Cons True show ?thesis
        by auto
    next
      case False
      with Cons Cons.prems have "subseq xs ys"
        by simp
      from Cons.IH [OF this] Cons.prems(2) show ?thesis
        by simp
    qed
  qed
qed

lemma created_IDs_allocated:
  assumes rt: "\<And>m. 0 \<le> m \<Longrightarrow> ByteToInt E (Itoa m) = Inr m"
  shows "last_ID E w = Inr n \<Longrightarrow> 0 \<le> n \<Longrightarrow> n + int (length calls) < 2 ^ 63 \<Longrightarrow>
     \<exists>k\<le>length calls. allocated_IDs E calls w = [n + 1..n + int k]
        \<and> subseq (created_IDs E calls w) (allocated_IDs E calls w)"
proof (induction calls arbitrary: w n)
  case Nil
  then show ?case by simp
next
  case (Cons call calls)
  obtain job jobPath where call: "call = (job, jobPath)"
    by (cases call)
  from Cons.prems have bound: "n < 2 ^ 63 - 1" "n + 1 + int (length calls) < 2 ^ 63"
    "n + int (length calls) < 2 ^ 63"
    by simp_all
  show ?case
  proof (cases "CreateBuild E job jobPath w")
    case None
    with call show ?thesis
      by (intro exI [of _ 0]) simp
  next
    case (Some res)
    obtain r w' where res: "res = (r, w')"
      by (cases res)
    note cb = Some [unfolded res]
    from allocate_ID_next [OF Cons.prems(1,2) bound(1)] show ?thesis
    proof
      assume "\<exists>err. allocate_ID E w = Inl err \<and> DB_commit E w = Some err"
      then obtain err where al: "allocate_ID E w = Inl err"
        by blast
      from CreateBuild_allocation_failed [OF al cb] have r: "r = Inl err" "w' = w"
        by simp_all
      from Cons.IH [OF Cons.prems(1,2) bound(3)] obtain k where
        "k \<le> length calls" "allocated_IDs E calls w = [n + 1..n + int k]"
        "subseq (created_IDs E calls w) (allocated_IDs E calls w)"
        by blast
      with call cb al r show ?thesis
        by (intro exI [of _ k]) simp
    next
      assume al: "allocate_ID E w = Inr (n + 1, w\<lparr>gcount := Some (Itoa (n + 1))\<rparr>)"
      from CreateBuild_after_allocation [OF al cb] have
        g: "gcount w' = Some (Itoa (n + 1))" and id: "\<forall>b. r = Inr b \<longrightarrow> ID b = n + 1"
        by simp_all
      have "last_ID E w' = Inr (n + 1)"
        using g rt [of "n + 1"] Cons.prems(2) by (simp add: last_ID_def)
      moreover have "0 \<le> n + 1"
        using Cons.prems(2) by simp
      ultimately obtain k where
        k: "k \<le> length calls" "allocated_IDs E calls w' = [n + 1 + 1..n + 1 + int k]"
        "subseq (created_IDs E calls w') (allocated_IDs E calls w')"
        using Cons.IH [of w' "n + 1"] bound(2) by blast
      have up: "[n + 1..n + int (Suc k)] = (n + 1) # [n + 1 + 1..n + 1 + int k]"
        by (subst upto_rec1) (simp_all add: algebra_simps)
      have al': "allocated_IDs E (call # calls) w = (n + 1) # allocated_IDs E calls w'"
        using call cb al by simp
      have "subseq (created_IDs E (call # calls) w) ((n + 1) # allocated_IDs E calls w')"
      proof (cases r)
        case (Inl err)
        with call cb k(3) show ?thesis
          by (auto intro: list_emb_Cons)
      next
        case (Inr b)
        with id have "ID b = n + 1"
          by simp
        with Inr call cb k(3) show ?thesis
          by simp
      qed
      with al' k(1,2) up show ?thesis
        by (intro exI [of _ "Suc k"]) simp
    qed
  qed
qed

text \<open>
  C2 (as the code has it). Take a store whose last recorded ID is \<open>n\<close> (0 on the empty
  store) and a sequence of calls of \<open>CreateBuild\<close> that stays below the largest \<open>int\<close>, with
  a \<open>ByteToInt\<close> that reads back what \<open>strconv.Itoa\<close> writes. The IDs taken from the counter
  are dense: \<open>n + 1\<close>, \<open>n + 2\<close>, ..., one for each call whose transaction commits. The IDs of
  the builds created are taken from them in order, so they strictly increase; a call that
  fails after its transaction (a directory or the job file) leaves its ID unused.
\<close>

theorem created_IDs_strictly_increasing:
  assumes "\<And>m. 0 \<le> m \<Longrightarrow> ByteToInt E (Itoa m) = Inr m"
    and "last_ID E w = Inr n" and "0 \<le> n" and "n + int (length calls) < 2 ^ 63"
  shows "\<exists>k\<le>length calls. allocated_IDs E calls w = [n + 1..n + int k]
      \<and> subseq (created_IDs E calls w) (allocated_IDs E calls w)
      \<and> sorted_wrt (<) (created_IDs E calls w)"
proof -
  from created_IDs_allocated [of E w n calls, OF assms] obtain k where
    k: "k \<le> length calls" "allocated_IDs E calls w = [n + 1..n + int k]"
    "subseq (created_IDs E calls w) (allocated_IDs E calls w)"
    by blast
  have "sorted_wrt (<) (allocated_IDs E calls w)"
    by (simp add: k(2))
  with k(3) have "sorted_wrt (<) (created_IDs E calls w)"
    by (rule subseq_sorted_wrt)
  with k show ?thesis
    by blast
qed

lemma env_gone_fields:
  "Config env_gone = config0"
  "ByteToInt env_gone = read_int"
  "DB_commit env_gone = (\<lambda>w. None)"
  "os_MkdirAll env_gone = (\<lambda>p w. None)"
  "os_WriteFile env_gone = (\<lambda>p d w. None)"
  "json_Marshal env_gone = marshal0"
  "os_ReadFile env_gone = (\<lambda>p w. if p = ''gone.yaml''
                                 then Inl (Error ''no such file or directory'')
                                 else Inr (''content of '' @ p))"
  by (simp_all add: env_gone_def env0_def)

text \<open>
  C2 as the spec states it fails: with every transaction committing, three calls in a
  row, the second for a job file that cannot be read, create the builds 1 and 3.
\<close>

theorem dense_IDs_counterexample:
  "created_IDs env_gone three_calls world0 = [1, 3]
   \<and> allocated_IDs env_gone three_calls world0 = [1, 2, 3]"
  by (simp add: three_calls_def CreateBuild_def allocate_ID_def MkdirAll_def SetBuildStatus_def
      status_actions_def new_build_def env_gone_fields world0_def Let_def Itoa_1 Itoa_2 Itoa_3
      read_int_def int64_def)

theorem created_IDs_strictly_increasing_witness:
  "\<exists>k\<le>3. allocated_IDs env_gone three_calls world0 = [1..int k]
     \<and> subseq (created_IDs env_gone three_calls world0) (allocated_IDs env_gone three_calls world0)
     \<and> sorted_wrt (<) (created_IDs env_gone three_calls world0)"
proof -
  have rt: "\<And>m. 0 \<le> m \<Longrightarrow> ByteToInt env_gone (Itoa m) = Inr m"
    by (simp add: env_gone_fields read_int_Itoa)
  have l: "last_ID env_gone world0 = Inr 0"
    by (simp add: last_ID_def world0_def)
  have len: "length three_calls = 3"
    by (simp add: three_calls_def)
  have z: "(0::int) \<le> 0" "0 + int (length three_calls) < 2 ^ 63"
    by (simp_all add: len)
  from created_IDs_strictly_increasing [of env_gone world0 0 three_calls, OF rt l z]
  show ?thesis
    by (simp add: len)
qed

subsection \<open>The pending hook tasks beside the caller\<close>

text \<open>Each thread on its own takes the steps of the function it runs.\<close>

lemma caller_alone:
  "SetBuildStatus E status b w = Some (b', w') \<Longrightarrow>
     run_schedule E [Caller, Caller, Caller, Caller]
       \<lparr>sys_build = b, sys_world = w, to_call = status # todo, caller = Idle, hook = h\<rparr>
     = Some \<lparr>sys_build = b', sys_world = w', to_call = todo, caller = Idle,
             hook = (if status = StatusPending then Spawned else h)\<rparr>"
  by (auto simp: SetBuildStatus_def Let_def thread_step_def caller_step_def
      split: if_splits option.splits)

lemma hook_alone:
  "runOnStatusTasks E StatusPending b w = Some (b', w') \<Longrightarrow>
     run_schedule E [Hook, Hook]
       \<lparr>sys_build = b, sys_world = w, to_call = todo, caller = c, hook = Spawned\<rparr>
     = Some \<lparr>sys_build = b', sys_world = w', to_call = todo, caller = c, hook = Finished\<rparr>"
  by (auto simp: runOnStatusTasks_def Let_def thread_step_def hook_step_def split: option.splits)

lemma upt2: "[0..<2] = [0, 1]"
  by (simp add: upt_rec)

lemmas system_defs = thread_step_def caller_step_def hook_step_def start_system_def
  status_actions_def arm_timer_def runOnStatusTasks_def get_task_def set_task_def
  job_hook_def job0_def build0_def task0_def

text \<open>
  C5 fails on the code. For a build with a hook task of kind pending, let the caller run
  the call for pending and then the call for running up to the end of its switch before
  the goroutine has taken its first step, \<open>pendingTasksWG.Add(1)\<close>. The wait of the second
  call finds the counter at 0 and lets the caller through: the switch for running has
  run while the goroutine has not started, and the pending hook task has no status yet.
\<close>

theorem pending_hooks_not_waited_for:
  "\<exists>s. run_schedule env0 caller_first
          (start_system (build0 1 job_hook) world0 [StatusPending, StatusRunning]) = Some s
     \<and> caller s = Switched StatusRunning \<and> hook s = Spawned \<and> \<not> waits_for_hooks s
     \<and> Status (sys_build s) = StatusRunning
     \<and> map task_Status (job_Tasks (Job (sys_build s))) = [[], []]"
  by (simp add: caller_first_def system_defs env0_fields waits_for_hooks_def upt2)

text \<open>When the goroutine does take that first step before the caller reaches the wait of
  the second call, the wait blocks, and the caller goes on once the hook tasks are done.\<close>

lemma wait_blocks_once_added:
  "run_schedule env0 hook_in_time
     (start_system (build0 1 job_hook) world0 [StatusPending, StatusRunning]) = None"
  by (simp add: hook_in_time_def system_defs env0_fields)

lemma wait_returns_after_hooks:
  "\<exists>s. run_schedule env0 [Caller, Caller, Caller, Caller, Hook, Caller, Hook, Caller, Caller]
          (start_system (build0 1 job_hook) world0 [StatusPending, StatusRunning]) = Some s
     \<and> caller s = Switched StatusRunning \<and> hook s = Finished \<and> waits_for_hooks s
     \<and> map task_Status (job_Tasks (Job (sys_build s))) = [StatusFinished, []]"
  by (simp add: system_defs env0_fields waits_for_hooks_def upt2 run_defs time_Since_def
      time_Sub_def maxDuration_def minDuration_def)

end
